theory Spec2Isabelle
  imports Complex_Main
begin

section \<open>Retirement calculator: data model\<close>

text \<open>
  The engine of \<^verbatim>\<open>app.py\<close> is numeric. Python floats are modelled by the reals, so
  every theorem below is about the arithmetic the code writes down, free of rounding.
  Ages are Python ints (slider values) and are modelled by \<open>int\<close>; money and rates are
  \<open>real\<close>.

  The helper functions of \<^verbatim>\<open>app.py\<close> are closures over the module-level values read
  from the sidebar widgets. That ambient state is the record \<open>inputs\<close>; a helper that
  reads one of these names takes the record as its first argument. Three widget values
  share their name with a parameter of the withdrawal simulator and carry the suffix
  \<open>_input\<close> here.
\<close>

record inputs =
  current_age :: int
  target_retirement_age :: int
  current_savings :: real
  monthly_contribution :: real
  ss_start_age_input :: int
  monthly_ss_input :: real
  working_return :: real
  inflation_rate :: real
  retirement_return :: real
  withdrawal_rate :: real
  use_guardrails_input :: bool
  guardrail_lower :: real
  guardrail_upper :: real
  use_bond_tent :: bool
  bond_tent_start_age :: int
  final_bond_ratio :: real
  initial_stock_ratio :: real

text \<open>
  Python exceptions the engine can raise are values of \<open>py_error\<close>; a function that can
  raise returns a sum, with \<open>Inl\<close> for the exception.
\<close>

datatype py_error = ZeroDivisionError | TypeError | ValueError

text \<open>
  The end-to-end scenario of the specification: the sidebar defaults with the guardrails
  and the bond tent switched off (\<^verbatim>\<open>app.py\<close> lines 61--108).
\<close>

definition scenario :: inputs where
  "scenario = \<lparr> current_age = 30, target_retirement_age = 62, current_savings = 100000,
     monthly_contribution = 2000, ss_start_age_input = 67, monthly_ss_input = 3000,
     working_return = 105 / 1000, inflation_rate = 4 / 100, retirement_return = 45 / 1000,
     withdrawal_rate = 35 / 1000, use_guardrails_input = False,
     guardrail_lower = 35 / 1000, guardrail_upper = 35 / 1000,
     use_bond_tent = False, bond_tent_start_age = 62,
     final_bond_ratio = 4 / 10, initial_stock_ratio = 8 / 10 \<rparr>"

section \<open>Allocation scheduler\<close>

text \<open>
  \<^verbatim>\<open>calculate_bond_tent_allocation\<close> (\<^verbatim>\<open>app.py\<close> lines 142--153). The function reads the
  checkbox value \<^verbatim>\<open>use_bond_tent\<close> from the enclosing scope. The division of the last
  branch is Python's true division of two ints; its divisor is positive there, because
  that branch is only reached with \<open>start_age \<le> age < retirement_age\<close>.
\<close>

definition calculate_bond_tent_allocation ::
  "inputs \<Rightarrow> int \<Rightarrow> int \<Rightarrow> int \<Rightarrow> real \<Rightarrow> real \<Rightarrow> real \<times> real" where
  "calculate_bond_tent_allocation g age start_age retirement_age initial_stock final_bond =
     (if \<not> use_bond_tent g \<or> age < start_age then (initial_stock, 1 - initial_stock)
      else if age \<ge> retirement_age then (1 - final_bond, final_bond)
      else
        (let progress = real_of_int (age - start_age) / real_of_int (retirement_age - start_age);
             stock_reduction = initial_stock - (1 - final_bond);
             current_stock = initial_stock - (stock_reduction * progress)
         in (current_stock, 1 - current_stock)))"

section \<open>Accumulation projector\<close>

text \<open>
  \<^verbatim>\<open>calculate_retirement_balance\<close> (\<^verbatim>\<open>app.py\<close> lines 155--181). The loop
  \<^verbatim>\<open>for year in range(years)\<close> is a left fold of its body over \<open>[0..<years]\<close>;
  \<^verbatim>\<open>range\<close> of a negative int is empty, which \<open>nat\<close> reproduces.
\<close>

definition accumulate_year :: "inputs \<Rightarrow> real \<Rightarrow> real \<Rightarrow> bool \<Rightarrow> real \<Rightarrow> nat \<Rightarrow> real" where
  "accumulate_year g monthly_contrib annual_rate use_tent bal year =
     (let age = current_age g + int year;
          blended_return =
            (if use_tent then
               (let (stock_pct, bond_pct) =
                      calculate_bond_tent_allocation g age (bond_tent_start_age g)
                        (target_retirement_age g) (initial_stock_ratio g) (final_bond_ratio g);
                    stock_return = annual_rate;
                    bond_return = retirement_return g
                in (stock_pct * stock_return) + (bond_pct * bond_return))
             else annual_rate);
          bal = bal * (1 + blended_return);
          annual_contribution = monthly_contrib * 12
      in bal + annual_contribution)"

definition calculate_retirement_balance ::
  "inputs \<Rightarrow> real \<Rightarrow> real \<Rightarrow> int \<Rightarrow> real \<Rightarrow> bool \<Rightarrow> real" where
  "calculate_retirement_balance g princ monthly_contrib years annual_rate use_tent =
     foldl (accumulate_year g monthly_contrib annual_rate use_tent) princ [0..<nat years]"

text \<open>
  The recurrence of the specification, section 4.2, written from its words: per elapsed
  year \<open>y\<close> the blended return is the allocation-weighted mix of the base return and the
  retirement return when the allocation is enabled and the base return otherwise, and
  the balance becomes \<open>balance \<times> (1 + blended_return) + 12 \<times> monthly_contribution\<close>.
\<close>

definition blended_return_spec :: "inputs \<Rightarrow> real \<Rightarrow> bool \<Rightarrow> nat \<Rightarrow> real" where
  "blended_return_spec g base_return allocation_enabled y =
     (if allocation_enabled then
        fst (calculate_bond_tent_allocation g (current_age g + int y) (bond_tent_start_age g)
               (target_retirement_age g) (initial_stock_ratio g) (final_bond_ratio g)) * base_return
        + snd (calculate_bond_tent_allocation g (current_age g + int y) (bond_tent_start_age g)
               (target_retirement_age g) (initial_stock_ratio g) (final_bond_ratio g))
          * retirement_return g
      else base_return)"

primrec project_spec :: "inputs \<Rightarrow> real \<Rightarrow> real \<Rightarrow> real \<Rightarrow> bool \<Rightarrow> nat \<Rightarrow> real" where
  "project_spec g princ monthly_contrib base_return allocation_enabled 0 = princ"
| "project_spec g princ monthly_contrib base_return allocation_enabled (Suc y) =
     project_spec g princ monthly_contrib base_return allocation_enabled y
       * (1 + blended_return_spec g base_return allocation_enabled y)
     + 12 * monthly_contrib"

text \<open>
  The reference of the end-to-end scenario: 100000 compounded at 10.5\% a year with
  24000 added at the end of each year.
\<close>

primrec scenario_reference :: "nat \<Rightarrow> real" where
  "scenario_reference 0 = 100000"
| "scenario_reference (Suc y) = scenario_reference y * (1 + 105 / 1000) + 24000"

text \<open>
  The earlier version of the application, \<^verbatim>\<open>appv1.py\<close> lines 103--118, keeps a function of
  the same name that has no bond tent and computes a closed form: the principal compounded
  yearly and the contributions as a monthly annuity. \<^verbatim>\<open>x ** n\<close> with an int \<open>n\<close> is
  \<open>x powi n\<close>, and raises for a zero base with a negative exponent.
\<close>

definition calculate_retirement_balance_v1 :: "real \<Rightarrow> real \<Rightarrow> int \<Rightarrow> real \<Rightarrow> py_error + real" where
  "calculate_retirement_balance_v1 princ monthly_contrib years annual_rate =
     (let monthly_rate = annual_rate / 12;
          n_months = years * 12
      in if 1 + annual_rate = 0 \<and> years < 0 then Inl ZeroDivisionError
         else
           (let fv_principal = princ * (1 + annual_rate) powi years;
                fv_contributions =
                  (if monthly_rate > 0 then
                     monthly_contrib * (((1 + monthly_rate) powi n_months - 1) / monthly_rate)
                   else monthly_contrib * real_of_int n_months)
            in Inr (fv_principal + fv_contributions)))"

section \<open>Withdrawal simulator\<close>

text \<open>
  \<^verbatim>\<open>calculate_withdrawal_years_enhanced\<close> (\<^verbatim>\<open>app.py\<close> lines 183--232) returns a Python
  float: \<^verbatim>\<open>months / 12\<close>, or \<^verbatim>\<open>float('inf')\<close> from the perpetual-fund detector.
  The type \<open>pyfloat\<close> holds these two kinds of float. An exception is a value of
  \<open>py_error\<close>: the division by a zero balance on line 191, and the addition
  \<^verbatim>\<open>retirement_age + (months / 12)\<close> on line 199 when \<^verbatim>\<open>retirement_age\<close> is left at its
  default \<^verbatim>\<open>None\<close>.
\<close>

datatype pyfloat = Finite real | Infinity

text \<open>The nine parameters of the simulator; they do not change during a run.\<close>

record sim_args =
  balance :: real
  monthly_withdrawal :: real
  annual_rate :: real
  monthly_ss :: real
  ss_start_age :: "real option"
  retirement_age :: "real option"
  use_guardrails :: bool
  lower_bound :: real
  upper_bound :: real

text \<open>The variables the monthly loop updates.\<close>

record sim_state =
  current_balance :: real
  months :: nat
  current_withdrawal_rate :: real
  annual_withdrawal :: real
  consecutive_growth_months :: nat

datatype step_result = Raise py_error | Return pyfloat | Continue sim_state

text \<open>
  Lines 198--222 of the loop body, for a retirement age that is a number: the month
  counter, growth, Social Security, the guardrail adjustment and the net withdrawal.
  The test \<^verbatim>\<open>ss_start_age and ...\<close> is false for \<^verbatim>\<open>None\<close> and for \<open>0\<close>.
\<close>

definition month_update :: "sim_args \<Rightarrow> real \<Rightarrow> sim_state \<Rightarrow> sim_state" where
  "month_update a ra s =
     (let monthly_rate = annual_rate a / 12;
          months' = months s + 1;
          current_retirement_age = ra + real months' / 12;
          bal = current_balance s * (1 + monthly_rate);
          ss_income =
            (case ss_start_age a of
               None \<Rightarrow> 0
             | Some ssa \<Rightarrow> if ssa \<noteq> 0 \<and> current_retirement_age \<ge> ssa then monthly_ss a else 0);
          (rate, withdrawal) =
            (if use_guardrails a \<and> months' mod 12 = 0 \<and> months' > 0 then
               (let current_implied_rate =
                      (if bal > 0 then annual_withdrawal s / bal else upper_bound a)
                in if current_implied_rate > upper_bound a then
                     (let r = max (lower_bound a) (current_withdrawal_rate s * (95 / 100))
                      in (r, bal * r))
                   else if current_implied_rate < lower_bound a
                           \<and> current_withdrawal_rate s < upper_bound a then
                     (let r = min (upper_bound a) (current_withdrawal_rate s * (105 / 100))
                      in (r, bal * r))
                   else (current_withdrawal_rate s, annual_withdrawal s))
             else (current_withdrawal_rate s, annual_withdrawal s));
          monthly_net_withdrawal = max 0 ((withdrawal / 12) - ss_income)
      in \<lparr> current_balance = bal - monthly_net_withdrawal, months = months',
           current_withdrawal_rate = rate, annual_withdrawal = withdrawal,
           consecutive_growth_months = consecutive_growth_months s \<rparr>)"

text \<open>
  One pass through the loop body: the month's update, then the perpetual-fund check of
  lines 224--230, which either returns \<^verbatim>\<open>float('inf')\<close> or goes on to the next month.
\<close>

definition loop_body :: "sim_args \<Rightarrow> sim_state \<Rightarrow> step_result" where
  "loop_body a s =
     (case retirement_age a of
        None \<Rightarrow> Raise TypeError
      | Some ra \<Rightarrow>
          (let s' = month_update a ra s
           in if current_balance s' > balance a * (8 / 10) then
                (let c = consecutive_growth_months s' + 1
                 in if c \<ge> 420 then Return Infinity
                    else Continue (s' \<lparr> consecutive_growth_months := c \<rparr>))
              else Continue (s' \<lparr> consecutive_growth_months := 0 \<rparr>)))"

lemma months_month_update: "months (month_update a ra s) = Suc (months s)"
  by (simp add: month_update_def Let_def case_prod_beta)

lemma loop_body_months: "loop_body a s = Continue s' \<Longrightarrow> months s' = Suc (months s)"
  by (auto simp: loop_body_def Let_def months_month_update split: option.splits if_splits)

text \<open>
  The loop \<^verbatim>\<open>while current_balance > 0 and months < 1200\<close>. Every pass that continues
  adds one to \<open>months\<close>, which is the termination argument.
\<close>

function while_loop :: "sim_args \<Rightarrow> sim_state \<Rightarrow> py_error + pyfloat" where
  "while_loop a s =
     (if current_balance s > 0 \<and> months s < 1200 then
        (case loop_body a s of
           Raise e \<Rightarrow> Inl e
         | Return v \<Rightarrow> Inr v
         | Continue s' \<Rightarrow> while_loop a s')
      else Inr (Finite (real (months s) / 12)))"
  by pat_completeness auto
termination
  by (relation "measure (\<lambda>(a, s). 1200 - months s)")
     (auto dest: loop_body_months)

text \<open>
  The function itself (lines 187--197 and 232). Its nine parameters are passed as the
  record \<open>sim_args\<close>. Line 191 divides by the starting balance before the loop begins.
\<close>

definition initial_state :: "sim_args \<Rightarrow> sim_state" where
  "initial_state a =
     \<lparr> current_balance = balance a, months = 0,
       current_withdrawal_rate = (monthly_withdrawal a * 12) / balance a,
       annual_withdrawal = monthly_withdrawal a * 12,
       consecutive_growth_months = 0 \<rparr>"

definition calculate_withdrawal_years_enhanced :: "sim_args \<Rightarrow> py_error + pyfloat" where
  "calculate_withdrawal_years_enhanced a =
     (if balance a = 0 then Inl ZeroDivisionError else while_loop a (initial_state a))"

text \<open>
  The same function called with a balance that is a NumPy \<^verbatim>\<open>float64\<close>, as the Monte Carlo
  engine does once its accumulation loop has run: NumPy's division by zero on line 191
  does not raise (warnings are silenced on line 9) but gives \<^verbatim>\<open>inf\<close> or \<^verbatim>\<open>nan\<close> as the
  withdrawal rate; with a zero balance the loop is not entered, the rate is never read,
  and the function returns \<^verbatim>\<open>0 / 12\<close>.
\<close>

definition calculate_withdrawal_years_enhanced_np :: "sim_args \<Rightarrow> py_error + pyfloat" where
  "calculate_withdrawal_years_enhanced_np a =
     (if balance a = 0 then Inr (Finite (0 / 12)) else while_loop a (initial_state a))"

subsection \<open>Observing a run\<close>

text \<open>
  \<open>state_at a s k\<close> is the state of the loop variables after \<open>k\<close> passes through the loop
  started in \<open>s\<close>, when the loop makes that many passes and goes on after each of them;
  it is \<open>None\<close> once the loop has stopped, returned or raised.
\<close>

primrec state_at :: "sim_args \<Rightarrow> sim_state \<Rightarrow> nat \<Rightarrow> sim_state option" where
  "state_at a s 0 = Some s"
| "state_at a s (Suc k) =
     (case state_at a s k of
        None \<Rightarrow> None
      | Some t \<Rightarrow>
          if current_balance t > 0 \<and> months t < 1200 then
            (case loop_body a t of Continue t' \<Rightarrow> Some t' | _ \<Rightarrow> None)
          else None)"

text \<open>
  A state is final when the loop ends in it: the loop condition fails, or the body
  returns or raises.
\<close>

definition final :: "sim_args \<Rightarrow> sim_state \<Rightarrow> bool" where
  "final a t = (\<not> (0 < current_balance t \<and> months t < 1200)
       \<or> (case loop_body a t of Continue t' \<Rightarrow> False | _ \<Rightarrow> True))"

text \<open>
  \<open>traj a ra k\<close> applies the month's update \<open>k\<close> times to the starting state. It does not
  look at the perpetual-fund counter, which the update leaves alone.
\<close>

abbreviation traj :: "sim_args \<Rightarrow> real \<Rightarrow> nat \<Rightarrow> sim_state" where
  "traj a ra k \<equiv> (month_update a ra ^^ k) (initial_state a)"

text \<open>
  \<open>balance_after a ra k\<close> is the balance at the end of month \<open>k\<close>, after that month's growth
  and withdrawal: the month's update applied \<open>k\<close> times to the starting state.
\<close>

definition balance_after :: "sim_args \<Rightarrow> real \<Rightarrow> nat \<Rightarrow> real" where
  "balance_after a ra k = current_balance ((month_update a ra ^^ k) (initial_state a))"

text \<open>
  The counter of the specification, section 4.3, written from its words: over the
  month-end balances in order, it counts the consecutive months with
  \<open>balance > 0.8 \<times> original_balance\<close> and is reset to 0 by a month where that fails.
\<close>

definition perpetual_counter :: "real \<Rightarrow> real list \<Rightarrow> nat" where
  "perpetual_counter original_balance bs =
     foldl (\<lambda>c b. if b > (8 / 10) * original_balance then c + 1 else 0) 0 bs"

text \<open>The specification's counter after month \<open>k\<close> of a run, over the balances of months 1 to \<open>k\<close>.\<close>

definition counter_after :: "sim_args \<Rightarrow> real \<Rightarrow> nat \<Rightarrow> nat" where
  "counter_after a ra k
     = perpetual_counter (balance a) (map (balance_after a ra) [1..<Suc k])"

subsection \<open>Example arguments\<close>

text \<open>
  Calls of the simulator that the theorems below use as concrete inputs:
  \<^item> a fund of 1000 nobody draws on;
  \<^item> a fund of 120000 drawn down at 4\% a year (400 a month) without growth;
  \<^item> a fund of 1000 drawn down by 0.40 a month without growth;
  \<^item> a fund of 1000 with a withdrawal of 250 that Social Security covers in full from the
    second month on;
  \<^item> a fund of 1200 drawn at 10\% a year with the guardrails enabled.
\<close>

definition steady_args :: sim_args where
  "steady_args = \<lparr> balance = 1000, monthly_withdrawal = 0, annual_rate = 0, monthly_ss = 0,
     ss_start_age = None, retirement_age = Some 62, use_guardrails = False,
     lower_bound = 25 / 1000, upper_bound = 5 / 100 \<rparr>"

definition four_percent_args :: sim_args where
  "four_percent_args = \<lparr> balance = 120000, monthly_withdrawal = 400, annual_rate = 0,
     monthly_ss = 0, ss_start_age = Some 67, retirement_age = Some 62, use_guardrails = False,
     lower_bound = 25 / 1000, upper_bound = 5 / 100 \<rparr>"

definition slow_decline_args :: sim_args where
  "slow_decline_args = \<lparr> balance = 1000, monthly_withdrawal = 2 / 5, annual_rate = 0,
     monthly_ss = 0, ss_start_age = None, retirement_age = Some 62, use_guardrails = False,
     lower_bound = 25 / 1000, upper_bound = 5 / 100 \<rparr>"

definition bridged_args :: sim_args where
  "bridged_args = \<lparr> balance = 1000, monthly_withdrawal = 250, annual_rate = 0,
     monthly_ss = 250, ss_start_age = Some (601 / 10), retirement_age = Some 60,
     use_guardrails = False, lower_bound = 25 / 1000, upper_bound = 5 / 100 \<rparr>"

definition guarded_args :: sim_args where
  "guarded_args = \<lparr> balance = 1200, monthly_withdrawal = 10, annual_rate = 0,
     monthly_ss = 0, ss_start_age = None, retirement_age = Some 62,
     use_guardrails = True, lower_bound = 25 / 1000, upper_bound = 5 / 100 \<rparr>"

section \<open>Monte Carlo engine\<close>

text \<open>
  \<^verbatim>\<open>run_monte_carlo_simulation\<close> (\<^verbatim>\<open>app.py\<close> lines 234--288). One entry of the result
  list is a \<open>trial_record\<close>; its last field is the dictionary key
  \<^verbatim>\<open>'monthly_withdrawal'\<close>, named after the local variable stored under it.
\<close>

record trial_record =
  balance_at_retirement :: real
  years_lasted :: pyfloat
  monthly_withdrawal_amount :: real

text \<open>
  NumPy's global generator is not part of the repository. Its state is a value of an
  arbitrary type \<open>'r\<close>, and its two operations are parameters of the model:
  \<open>seed\<close> for \<^verbatim>\<open>np.random.seed\<close>, which replaces the state by one that the seed
  determines, and \<open>normal\<close> for one draw of \<^verbatim>\<open>np.random.normal(mu, sigma)\<close>, which
  returns the sample and the next state. A draw of \<open>n\<close> samples at once is \<open>n\<close> draws in a
  row.
\<close>

primrec normal_n ::
  "(real \<Rightarrow> real \<Rightarrow> 'r \<Rightarrow> real \<times> 'r) \<Rightarrow> real \<Rightarrow> real \<Rightarrow> nat \<Rightarrow> 'r \<Rightarrow> real list \<times> 'r" where
  "normal_n normal mu sigma 0 rng = ([], rng)"
| "normal_n normal mu sigma (Suc n) rng =
     (let (x, rng1) = normal mu sigma rng;
          (xs, rng2) = normal_n normal mu sigma n rng1
      in (x # xs, rng2))"

text \<open>The body of the accumulation loop, lines 247--262, on the balance and the generator.\<close>

definition mc_year ::
  "(real \<Rightarrow> real \<Rightarrow> 'r \<Rightarrow> real \<times> 'r) \<Rightarrow> inputs \<Rightarrow> real list \<Rightarrow> real \<times> 'r \<Rightarrow> nat \<Rightarrow> real \<times> 'r" where
  "mc_year normal g working_returns st year =
     (let (bal, rng) = st;
          age = current_age g + int year
      in if use_bond_tent g then
           (let (stock_pct, bond_pct) =
                  calculate_bond_tent_allocation g age (bond_tent_start_age g)
                    (target_retirement_age g) (initial_stock_ratio g) (final_bond_ratio g);
                stock_return_sim = working_returns ! year;
                (bond_return_sim, rng') = normal (retirement_return g) (25 / 1000) rng;
                blended_return = (stock_pct * stock_return_sim) + (bond_pct * bond_return_sim)
            in (bal * (1 + blended_return) + monthly_contribution g * 12, rng'))
         else
           (let blended_return = working_returns ! year
            in (bal * (1 + blended_return) + monthly_contribution g * 12, rng)))"

text \<open>
  One pass of the loop over the trials, lines 239--286. The pass starts from the
  generator state \<open>rng_before\<close> that the previous pass left, and begins with
  \<^verbatim>\<open>np.random.seed(sim)\<close>. A negative sample count makes \<^verbatim>\<open>np.random.normal\<close> raise
  \<^verbatim>\<open>ValueError\<close>; an exception of the withdrawal simulator ends the pass with it. The
  balance handed to the simulator is the Python int \<^verbatim>\<open>current_savings\<close> when there is no
  year to accumulate, and a NumPy \<^verbatim>\<open>float64\<close> after the first multiplication by a
  sampled return.
\<close>

definition run_trial ::
  "(nat \<Rightarrow> 'r) \<Rightarrow> (real \<Rightarrow> real \<Rightarrow> 'r \<Rightarrow> real \<times> 'r) \<Rightarrow> inputs \<Rightarrow> nat \<Rightarrow> 'r
     \<Rightarrow> (py_error + trial_record) \<times> 'r" where
  "run_trial seed normal g sim rng_before =
     (let rng = seed sim;
          years_to_retirement = target_retirement_age g - current_age g
      in if years_to_retirement < 0 then (Inl ValueError, rng)
         else
           (let (working_returns, rng) =
                  normal_n normal (working_return g) (17 / 100) (nat years_to_retirement) rng;
                (bal, rng) =
                  foldl (mc_year normal g working_returns) (current_savings g, rng)
                    [0..<nat years_to_retirement];
                future_monthly_expenses =
                  monthly_contribution g * (1 + inflation_rate g) ^ nat years_to_retirement
            in case (if nat years_to_retirement = 0 then calculate_withdrawal_years_enhanced
                     else calculate_withdrawal_years_enhanced_np)
                      \<lparr> balance = bal, monthly_withdrawal = future_monthly_expenses,
                        annual_rate = retirement_return g, monthly_ss = monthly_ss_input g,
                        ss_start_age = Some (real_of_int (ss_start_age_input g)),
                        retirement_age = Some (real_of_int (target_retirement_age g)),
                        use_guardrails = use_guardrails_input g,
                        lower_bound = guardrail_lower g, upper_bound = guardrail_upper g \<rparr> of
                 Inl e \<Rightarrow> (Inl e, rng)
               | Inr lasted \<Rightarrow>
                   (Inr \<lparr> balance_at_retirement = bal, years_lasted = lasted,
                          monthly_withdrawal_amount =
                            (if lasted = Infinity then (bal * withdrawal_rate g) / 12
                             else future_monthly_expenses) \<rparr>,
                    rng)))"

text \<open>
  The loop \<^verbatim>\<open>for sim in range(num_sims)\<close>: the generator state and the list of results
  are threaded through the passes, and an exception ends the run.
\<close>

fun mc_loop ::
  "(nat \<Rightarrow> 'r) \<Rightarrow> (real \<Rightarrow> real \<Rightarrow> 'r \<Rightarrow> real \<times> 'r) \<Rightarrow> inputs \<Rightarrow> nat list \<Rightarrow> 'r
     \<Rightarrow> trial_record list \<Rightarrow> (py_error + trial_record list) \<times> 'r" where
  "mc_loop seed normal g [] rng results = (Inr results, rng)"
| "mc_loop seed normal g (sim # sims) rng results =
     (case run_trial seed normal g sim rng of
        (Inl e, rng') \<Rightarrow> (Inl e, rng')
      | (Inr r, rng') \<Rightarrow> mc_loop seed normal g sims rng' (results @ [r]))"

definition run_monte_carlo_simulation ::
  "(nat \<Rightarrow> 'r) \<Rightarrow> (real \<Rightarrow> real \<Rightarrow> 'r \<Rightarrow> real \<times> 'r) \<Rightarrow> inputs \<Rightarrow> int \<Rightarrow> 'r
     \<Rightarrow> (py_error + trial_record list) \<times> 'r" where
  "run_monte_carlo_simulation seed normal g num_sims rng =
     mc_loop seed normal g [0..<nat num_sims] rng []"

text \<open>
  A small generator and a plan with one year to retirement, used as a concrete input: the
  state is a counter, and a draw returns \<open>mu + sigma \<times> state\<close>.
\<close>

definition toy_seed :: "nat \<Rightarrow> nat" where
  "toy_seed sim = sim"

definition toy_normal :: "real \<Rightarrow> real \<Rightarrow> nat \<Rightarrow> real \<times> nat" where
  "toy_normal mu sigma rng = (mu + sigma * real rng, Suc rng)"

definition one_year_plan :: inputs where
  "one_year_plan = \<lparr> current_age = 61, target_retirement_age = 62, current_savings = 1000,
     monthly_contribution = 100, ss_start_age_input = 67, monthly_ss_input = 0,
     working_return = 0, inflation_rate = 0, retirement_return = 0,
     withdrawal_rate = 4 / 100, use_guardrails_input = False,
     guardrail_lower = 4 / 100, guardrail_upper = 4 / 100,
     use_bond_tent = False, bond_tent_start_age = 62,
     final_bond_ratio = 4 / 10, initial_stock_ratio = 8 / 10 \<rparr>"

section \<open>The engine of the earlier version\<close>

text \<open>
  \<^verbatim>\<open>appv1.py\<close> keeps the first version of the engine (lines 120--189): a withdrawal loop
  without guardrails and perpetual-fund detection, and a Monte Carlo function that seeds
  the generator once, with 42, before its loop over the trials. The specification
  describes the engine of \<^verbatim>\<open>app.py\<close>; this one is modelled to compare the two. Its
  parameters arrive in the dictionary \<^verbatim>\<open>params\<close>, here a record whose fields carry the
  prefix \<open>p_\<close>.
\<close>

record params_v1 =
  p_retirement_age :: int
  p_current_age :: int
  p_current_principal :: real
  p_monthly_contribution :: real
  p_monthly_ss :: real
  p_ss_start_age :: int
  p_working_apr :: real
  p_retirement_apr :: real
  p_inflation_rate :: real
  p_strategy :: string

record trial_record_v1 =
  balance_at_retirement_v1 :: real
  years_lasted_v1 :: real
  funds_exhausted_age_v1 :: real

text \<open>
  \<^verbatim>\<open>calculate_withdrawal_years\<close>: the loop \<^verbatim>\<open>while current_balance > 0\<close> with its safety
  exit once more than 1200 months have passed.
\<close>

function while_loop_v1 ::
  "real \<Rightarrow> real \<Rightarrow> real \<Rightarrow> real option \<Rightarrow> real option \<Rightarrow> real \<Rightarrow> nat \<Rightarrow> py_error + real" where
  "while_loop_v1 monthly_wd monthly_rate ss ssa ra bal n =
     (if bal > 0 then
        (case ra of
           None \<Rightarrow> Inl TypeError
         | Some r \<Rightarrow>
             (let n' = n + 1;
                  current_retirement_age = r + real n' / 12;
                  total_monthly_income =
                    (case ssa of
                       None \<Rightarrow> 0
                     | Some a \<Rightarrow> if a \<noteq> 0 \<and> current_retirement_age \<ge> a then ss else 0);
                  net_withdrawal = max 0 (monthly_wd - total_monthly_income);
                  bal' = bal * (1 + monthly_rate) - net_withdrawal
              in if n' > 1200 then Inr (real n' / 12)
                 else while_loop_v1 monthly_wd monthly_rate ss ssa ra bal' n'))
      else Inr (real n / 12))"
  by pat_completeness auto
termination
  by (relation "measure (\<lambda>(monthly_wd, monthly_rate, ss, ssa, ra, bal, n). 1201 - n)") auto

definition calculate_withdrawal_years_v1 ::
  "real \<Rightarrow> real \<Rightarrow> real \<Rightarrow> real \<Rightarrow> real option \<Rightarrow> real option \<Rightarrow> py_error + real" where
  "calculate_withdrawal_years_v1 bal monthly_wd rate ss ssa ra =
     while_loop_v1 monthly_wd (rate / 12) ss ssa ra bal 0"

text \<open>One pass of the loop over the trials; it draws from the generator state it is given.\<close>

definition trial_v1 ::
  "(real \<Rightarrow> real \<Rightarrow> 'r \<Rightarrow> real \<times> 'r) \<Rightarrow> params_v1 \<Rightarrow> 'r \<Rightarrow> (py_error + trial_record_v1) \<times> 'r" where
  "trial_v1 normal p rng =
     (let years_to_retirement = p_retirement_age p - p_current_age p
      in if years_to_retirement < 0 then (Inl ValueError, rng)
         else
           (let (working_returns, rng) =
                  normal_n normal (p_working_apr p) (16 / 100) (nat years_to_retirement) rng;
                bal = foldl (\<lambda>b year. b * (1 + working_returns ! year)
                                          + p_monthly_contribution p * 12)
                        (p_current_principal p) [0..<nat years_to_retirement];
                wd_rate =
                  (if p_strategy p = ''Enhanced (3.5% + Guardrails)'' then 35 / 1000
                   else if p_strategy p = ''Conservative (3% Fixed)'' then 3 / 100
                   else 4 / 100);
                annual_wd = bal * wd_rate;
                monthly_wd = annual_wd / 12
            in case calculate_withdrawal_years_v1 bal monthly_wd (p_retirement_apr p)
                      (p_monthly_ss p) (Some (real_of_int (p_ss_start_age p)))
                      (Some (real_of_int (p_retirement_age p))) of
                 Inl e \<Rightarrow> (Inl e, rng)
               | Inr lasted \<Rightarrow>
                   (Inr \<lparr> balance_at_retirement_v1 = bal, years_lasted_v1 = lasted,
                          funds_exhausted_age_v1 = real_of_int (p_retirement_age p) + lasted \<rparr>,
                    rng)))"

fun mc_loop_v1 ::
  "(real \<Rightarrow> real \<Rightarrow> 'r \<Rightarrow> real \<times> 'r) \<Rightarrow> params_v1 \<Rightarrow> nat list \<Rightarrow> 'r
     \<Rightarrow> trial_record_v1 list \<Rightarrow> (py_error + trial_record_v1 list) \<times> 'r" where
  "mc_loop_v1 normal p [] rng results = (Inr results, rng)"
| "mc_loop_v1 normal p (sim # sims) rng results =
     (case trial_v1 normal p rng of
        (Inl e, rng') \<Rightarrow> (Inl e, rng')
      | (Inr r, rng') \<Rightarrow> mc_loop_v1 normal p sims rng' (results @ [r]))"

text \<open>\<^verbatim>\<open>np.random.seed(42)\<close> comes first, once, whatever the generator state was.\<close>

definition run_monte_carlo_simulation_v1 ::
  "(nat \<Rightarrow> 'r) \<Rightarrow> (real \<Rightarrow> real \<Rightarrow> 'r \<Rightarrow> real \<times> 'r) \<Rightarrow> params_v1 \<Rightarrow> int \<Rightarrow> 'r
     \<Rightarrow> (py_error + trial_record_v1 list) \<times> 'r" where
  "run_monte_carlo_simulation_v1 seed normal p num_sims rng_before =
     mc_loop_v1 normal p [0..<nat num_sims] (seed 42) []"

definition one_year_params_v1 :: params_v1 where
  "one_year_params_v1 = \<lparr> p_retirement_age = 62, p_current_age = 61,
     p_current_principal = 1000, p_monthly_contribution = 100, p_monthly_ss = 0,
     p_ss_start_age = 67, p_working_apr = 0, p_retirement_apr = 0, p_inflation_rate = 0,
     p_strategy = ''Basic (4% Rule)'' \<rparr>"

section \<open>Properties of the allocation scheduler\<close>

text \<open>
  Claim C4. The scheduler returns \<open>(initial_stock, 1 - initial_stock)\<close> when the bond
  tent is disabled or the age is below the tent's start age; failing that,
  \<open>(1 - final_bond, final_bond)\<close> from the retirement age on; and otherwise
  \<open>(stock, 1 - stock)\<close> with the stock fraction interpolated linearly between the two.
  The three cases are read in the order the specification lists them. In every case the
  two fractions sum to 1.
\<close>

theorem allocation_cases:
  "(\<not> use_bond_tent g \<or> age < tent_start_age \<longrightarrow>
      calculate_bond_tent_allocation g age tent_start_age ret_age initial_stock final_bond
        = (initial_stock, 1 - initial_stock))
   \<and> (use_bond_tent g \<and> tent_start_age \<le> age \<and> ret_age \<le> age \<longrightarrow>
      calculate_bond_tent_allocation g age tent_start_age ret_age initial_stock final_bond
        = (1 - final_bond, final_bond))
   \<and> (use_bond_tent g \<and> tent_start_age \<le> age \<and> age < ret_age \<longrightarrow>
      calculate_bond_tent_allocation g age tent_start_age ret_age initial_stock final_bond
        = (initial_stock
             - (real_of_int (age - tent_start_age) / real_of_int (ret_age - tent_start_age))
               * (initial_stock - (1 - final_bond)),
           1 - (initial_stock
             - (real_of_int (age - tent_start_age) / real_of_int (ret_age - tent_start_age))
               * (initial_stock - (1 - final_bond)))))
   \<and> fst (calculate_bond_tent_allocation g age tent_start_age ret_age initial_stock final_bond)
     + snd (calculate_bond_tent_allocation g age tent_start_age ret_age initial_stock final_bond)
     = 1"
  by (simp add: calculate_bond_tent_allocation_def Let_def mult.commute)

theorem allocation_cases_witness:
  "calculate_bond_tent_allocation scenario 40 50 62 (9 / 10) (1 / 2) = (9 / 10, 1 / 10)
   \<and> calculate_bond_tent_allocation (scenario \<lparr> use_bond_tent := True \<rparr>) 40 50 62 (9 / 10) (1 / 2)
       = (9 / 10, 1 / 10)
   \<and> calculate_bond_tent_allocation (scenario \<lparr> use_bond_tent := True \<rparr>) 65 50 62 (9 / 10) (1 / 2)
       = (1 / 2, 1 / 2)
   \<and> calculate_bond_tent_allocation (scenario \<lparr> use_bond_tent := True \<rparr>) 56 50 62 (9 / 10) (1 / 2)
       = (7 / 10, 3 / 10)"
  using allocation_cases [of scenario 40 50 62 "9 / 10" "1 / 2"]
    allocation_cases [of "scenario \<lparr> use_bond_tent := True \<rparr>" 40 50 62 "9 / 10" "1 / 2"]
    allocation_cases [of "scenario \<lparr> use_bond_tent := True \<rparr>" 65 50 62 "9 / 10" "1 / 2"]
    allocation_cases [of "scenario \<lparr> use_bond_tent := True \<rparr>" 56 50 62 "9 / 10" "1 / 2"]
  by (simp add: scenario_def)

text \<open>
  Claim C7, as stated: the returned pair is determined by the five arguments alone,
  whatever the rest of the program state, the bond-tent checkbox included. The code
  tests the checkbox: at age 56 of a tent running from 50 to 62 the result is
  \<open>(0.7, 0.3)\<close> with the box ticked and \<open>(0.9, 0.1)\<close> without.
\<close>

theorem allocation_five_inputs_counterexample:
  "calculate_bond_tent_allocation scenario 56 50 62 (9 / 10) (1 / 2)
     \<noteq> calculate_bond_tent_allocation (scenario \<lparr> use_bond_tent := True \<rparr>) 56 50 62 (9 / 10) (1 / 2)"
  by (simp add: calculate_bond_tent_allocation_def scenario_def)

text \<open>
  Claim C7, amended: the returned pair is determined by the five arguments together
  with the bond-tent checkbox, and by nothing else of the program state.
\<close>

theorem allocation_pure_in_flag_and_inputs:
  "use_bond_tent g = use_bond_tent g' \<Longrightarrow>
     calculate_bond_tent_allocation g age start_age ret_age initial_stock final_bond
       = calculate_bond_tent_allocation g' age start_age ret_age initial_stock final_bond"
  by (simp add: calculate_bond_tent_allocation_def)

theorem allocation_pure_in_flag_and_inputs_witness:
  "use_bond_tent scenario = use_bond_tent (scenario \<lparr> current_age := 45, working_return := 0 \<rparr>)
   \<and> calculate_bond_tent_allocation scenario 56 50 62 (9 / 10) (1 / 2)
       = calculate_bond_tent_allocation (scenario \<lparr> current_age := 45, working_return := 0 \<rparr>)
           56 50 62 (9 / 10) (1 / 2)"
  using allocation_pure_in_flag_and_inputs
    [of scenario "scenario \<lparr> current_age := 45, working_return := 0 \<rparr>" 56 50 62 "9 / 10" "1 / 2"]
  by (simp add: scenario_def)

section \<open>Properties of the accumulation projector\<close>

lemma accumulate_year_eq:
  "accumulate_year g mc r ut b y = b * (1 + blended_return_spec g r ut y) + 12 * mc"
  by (simp add: accumulate_year_def blended_return_spec_def Let_def case_prod_beta)

lemma calculate_retirement_balance_Suc:
  "calculate_retirement_balance g p mc (int (Suc n)) r ut
     = accumulate_year g mc r ut (calculate_retirement_balance g p mc (int n) r ut) n"
  unfolding calculate_retirement_balance_def by (simp del: of_nat_Suc)

lemma projection_eq_spec:
  "calculate_retirement_balance g p mc (int n) r ut = project_spec g p mc r ut n"
proof (induction n)
  case 0
  show ?case by (simp add: calculate_retirement_balance_def)
next
  case (Suc n)
  show ?case
    unfolding calculate_retirement_balance_Suc accumulate_year_eq Suc.IH by simp
qed

lemma scenario_spec_eq_reference:
  "project_spec scenario 100000 2000 (105 / 1000) False n = scenario_reference n"
  by (induction n) (simp_all add: blended_return_spec_def)

text \<open>The reference in closed form.\<close>

lemma scenario_reference_closed:
  "scenario_reference n
     = 100000 * (1105 / 1000) ^ n + 24000 * (((1105 / 1000) ^ n - 1) / (105 / 1000))"
  by (induction n) (simp_all add: field_simps)

text \<open>A year count that is not positive leaves the principal as it is.\<close>

lemma projection_no_years:
  "years \<le> 0 \<Longrightarrow> calculate_retirement_balance g p mc years r ut = p"
  by (simp add: calculate_retirement_balance_def)

text \<open>
  Claim C3. For every year count \<open>n \<ge> 0\<close> the accumulation projection of \<^verbatim>\<open>app.py\<close>
  equals the recurrence \<open>balance \<leftarrow> balance \<times> (1 + blended_return) + 12 \<times> monthly_contribution\<close>
  iterated once per elapsed year. With the bond tent disabled, 100000 projected at a base
  return of 0.105 with a monthly contribution of 2000 equals, year by year, the reference
  that compounds at 10.5\% and adds 24000 at each year's end; the call the program makes
  for the scenario (32 years) is the reference after 32 years.
\<close>

theorem projection_is_recurrence:
  "calculate_retirement_balance g princ monthly_contrib (int year_count) base_return
       allocation_enabled
     = project_spec g princ monthly_contrib base_return allocation_enabled year_count
   \<and> calculate_retirement_balance scenario 100000 2000 (int year_count) (105 / 1000) False
     = scenario_reference year_count
   \<and> calculate_retirement_balance scenario (current_savings scenario)
       (monthly_contribution scenario)
       (target_retirement_age scenario - current_age scenario)
       (working_return scenario) (use_bond_tent scenario)
     = scenario_reference 32"
proof -
  have call: "calculate_retirement_balance scenario (current_savings scenario)
       (monthly_contribution scenario)
       (target_retirement_age scenario - current_age scenario)
       (working_return scenario) (use_bond_tent scenario)
     = calculate_retirement_balance scenario 100000 2000 (int 32) (105 / 1000) False"
    by (simp add: scenario_def)
  show ?thesis
    unfolding call by (simp only: projection_eq_spec scenario_spec_eq_reference simp_thms)
qed

theorem projection_is_recurrence_witness:
  "calculate_retirement_balance (scenario \<lparr> use_bond_tent := True, bond_tent_start_age := 30 \<rparr>)
       1000 10 2 (1 / 10) True
     = 45957933 / 32000
   \<and> calculate_retirement_balance scenario 100000 2000 2 (105 / 1000) False = 345245 / 2"
proof -
  let ?g = "scenario \<lparr> use_bond_tent := True, bond_tent_start_age := 30 \<rparr>"
  note inst = projection_is_recurrence [of ?g 1000 10 2 "1 / 10" True]
  have "calculate_retirement_balance ?g 1000 10 (int 2) (1 / 10) True
          = project_spec ?g 1000 10 (1 / 10) True 2"
    using inst by (rule conjunct1)
  moreover have "project_spec ?g 1000 10 (1 / 10) True 2 = 45957933 / 32000"
    by (simp add: eval_nat_numeral blended_return_spec_def calculate_bond_tent_allocation_def
          scenario_def)
  moreover have "calculate_retirement_balance scenario 100000 2000 (int 2) (105 / 1000) False
          = scenario_reference 2"
    using inst by (rule conjunct1 [OF conjunct2])
  moreover have "scenario_reference 2 = 345245 / 2"
    by (simp add: eval_nat_numeral)
  ultimately show ?thesis by simp
qed

text \<open>
  The function of the same name in \<^verbatim>\<open>appv1.py\<close> is a different formula and is not the
  recurrence: after one year it credits the twelve contributions with monthly interest.
\<close>

lemma v1_projection_differs:
  "calculate_retirement_balance_v1 100000 2000 1 (105 / 1000)
     \<noteq> Inr (calculate_retirement_balance scenario 100000 2000 1 (105 / 1000) False)"
  by (simp add: calculate_retirement_balance_v1_def calculate_retirement_balance_def
        accumulate_year_def Let_def power_int_def power_divide)

section \<open>Properties of the withdrawal simulator\<close>

subsection \<open>The loop and its trace\<close>


declare while_loop.simps [simp del]

lemma while_loop_continue:
  "0 < current_balance s \<Longrightarrow> months s < 1200 \<Longrightarrow> loop_body a s = Continue s' \<Longrightarrow>
     while_loop a s = while_loop a s'"
  by (subst while_loop.simps) simp

lemma while_loop_return:
  "0 < current_balance s \<Longrightarrow> months s < 1200 \<Longrightarrow> loop_body a s = Return v \<Longrightarrow>
     while_loop a s = Inr v"
  by (subst while_loop.simps) simp

lemma while_loop_raise:
  "0 < current_balance s \<Longrightarrow> months s < 1200 \<Longrightarrow> loop_body a s = Raise e \<Longrightarrow>
     while_loop a s = Inl e"
  by (subst while_loop.simps) simp

lemma while_loop_stop:
  "\<not> (0 < current_balance s \<and> months s < 1200) \<Longrightarrow>
     while_loop a s = Inr (Finite (real (months s) / 12))"
  by (subst while_loop.simps) auto

lemma state_at_SucD:
  assumes "state_at a s (Suc k) = Some t"
  obtains u where "state_at a s k = Some u" "0 < current_balance u" "months u < 1200"
    "loop_body a u = Continue t"
  using assms by (auto split: option.splits if_splits step_result.splits)

lemma state_at_SucI:
  "state_at a s k = Some u \<Longrightarrow> 0 < current_balance u \<Longrightarrow> months u < 1200 \<Longrightarrow>
     loop_body a u = Continue t \<Longrightarrow> state_at a s (Suc k) = Some t"
  by simp

lemma state_at_while: "state_at a s k = Some t \<Longrightarrow> while_loop a s = while_loop a t"
proof (induction k arbitrary: t)
  case 0
  then show ?case by simp
next
  case (Suc k)
  from Suc.prems obtain u where u: "state_at a s k = Some u" "0 < current_balance u"
      "months u < 1200" "loop_body a u = Continue t"
    by (rule state_at_SucD)
  have "while_loop a s = while_loop a u" using Suc.IH u(1) by simp
  also have "\<dots> = while_loop a t" using u(2-4) by (rule while_loop_continue)
  finally show ?case .
qed

lemma state_at_months: "state_at a s k = Some t \<Longrightarrow> months t = months s + k"
proof (induction k arbitrary: t)
  case 0
  then show ?case by simp
next
  case (Suc k)
  from Suc.prems obtain u where u: "state_at a s k = Some u" "loop_body a u = Continue t"
    by (rule state_at_SucD)
  show ?case using Suc.IH [OF u(1)] loop_body_months [OF u(2)] by simp
qed

lemma state_at_None_mono: "k \<le> k' \<Longrightarrow> state_at a s k = None \<Longrightarrow> state_at a s k' = None"
  by (induction rule: dec_induct) simp_all

lemma state_at_bound:
  assumes "state_at a s k = Some t" "0 < k"
  shows "months s + k \<le> 1200"
proof -
  from assms obtain j where j: "k = Suc j" by (cases k) auto
  from assms(1) [unfolded j] obtain u where u: "state_at a s j = Some u" "months u < 1200"
    by (rule state_at_SucD)
  show ?thesis using state_at_months [OF u(1)] u(2) j by simp
qed

lemma reaches_final_aux:
  "state_at a s k = Some t \<Longrightarrow> 1200 - months t = n \<Longrightarrow>
     \<exists>k' t'. state_at a s k' = Some t' \<and> final a t'"
proof (induction n arbitrary: k t)
  case 0
  then have "final a t" by (simp add: final_def)
  with 0 show ?case by blast
next
  case (Suc n)
  show ?case
  proof (cases "final a t")
    case True
    with Suc.prems show ?thesis by blast
  next
    case False
    then obtain t' where t': "0 < current_balance t" "months t < 1200" "loop_body a t = Continue t'"
      by (cases "loop_body a t") (auto simp: final_def)
    have "state_at a s (Suc k) = Some t'"
      using Suc.prems(1) t' by (rule state_at_SucI)
    moreover have "1200 - months t' = n"
      using loop_body_months [OF t'(3)] Suc.prems(2) by simp
    ultimately show ?thesis by (rule Suc.IH)
  qed
qed

lemma reaches_final: "\<exists>k t. state_at a s k = Some t \<and> final a t"
  using reaches_final_aux [of a s 0 s] by simp


lemma while_loop_final:
  assumes "state_at a s k = Some t" "final a t"
  shows "while_loop a s =
     (if 0 < current_balance t \<and> months t < 1200 then
        (case loop_body a t of Raise e \<Rightarrow> Inl e | Return v \<Rightarrow> Inr v
         | Continue t' \<Rightarrow> Inr (Finite 0))
      else Inr (Finite (real (months t) / 12)))"
proof -
  have "while_loop a s = while_loop a t" using assms(1) by (rule state_at_while)
  also have "\<dots> = (if 0 < current_balance t \<and> months t < 1200 then
        (case loop_body a t of Raise e \<Rightarrow> Inl e | Return v \<Rightarrow> Inr v
         | Continue t' \<Rightarrow> Inr (Finite 0))
      else Inr (Finite (real (months t) / 12)))"
    using assms(2) by (subst while_loop.simps) (auto simp: final_def split: step_result.splits)
  finally show ?thesis .
qed

subsection \<open>The run from the starting state\<close>

lemma month_update_counter:
  "month_update a ra (s \<lparr> consecutive_growth_months := c \<rparr>)
     = (month_update a ra s) \<lparr> consecutive_growth_months := c \<rparr>"
  by (simp add: month_update_def Let_def case_prod_beta)

lemma counter_month_update:
  "consecutive_growth_months (month_update a ra s) = consecutive_growth_months s"
  by (simp add: month_update_def Let_def case_prod_beta)

lemma traj_counter: "consecutive_growth_months (traj a ra k) = 0"
  by (induction k) (simp_all add: initial_state_def counter_month_update)

lemma traj_months: "months (traj a ra k) = k"
  by (induction k) (simp_all add: initial_state_def months_month_update)

lemma balance_after_0: "balance_after a ra 0 = balance a"
  by (simp add: balance_after_def initial_state_def)

lemma counter_after_0: "counter_after a ra 0 = 0"
  by (simp add: counter_after_def perpetual_counter_def)

lemma counter_after_Suc:
  "counter_after a ra (Suc k)
     = (if balance_after a ra (Suc k) > (8 / 10) * balance a then counter_after a ra k + 1 else 0)"
  by (simp add: counter_after_def perpetual_counter_def)

lemma counter_after_le: "counter_after a ra k \<le> k"
  by (induction k) (simp_all only: counter_after_0 counter_after_Suc split: if_splits, simp_all)

lemma body_traj:
  assumes "retirement_age a = Some ra"
  shows "loop_body a ((traj a ra k) \<lparr> consecutive_growth_months := counter_after a ra k \<rparr>)
     = (if counter_after a ra (Suc k) \<ge> 420 then Return Infinity
        else Continue ((traj a ra (Suc k)) \<lparr> consecutive_growth_months := counter_after a ra (Suc k) \<rparr>))"
  unfolding counter_after_Suc
  by (simp add: loop_body_def assms month_update_counter Let_def balance_after_def mult.commute)

lemma state_at_traj:
  assumes ra: "retirement_age a = Some ra"
  shows "state_at a (initial_state a) k = Some t \<Longrightarrow>
     t = (traj a ra k) \<lparr> consecutive_growth_months := counter_after a ra k \<rparr>
     \<and> k \<le> 1200 \<and> (\<forall>j<k. 0 < balance_after a ra j) \<and> (\<forall>j\<le>k. counter_after a ra j < 420)"
proof (induction k arbitrary: t)
  case 0
  then show ?case by (auto simp: counter_after_0 initial_state_def)
next
  case (Suc k)
  from Suc.prems obtain u where u: "state_at a (initial_state a) k = Some u"
      "0 < current_balance u" "months u < 1200" "loop_body a u = Continue t"
    by (rule state_at_SucD)
  note ih = Suc.IH [OF u(1)]
  from ih have ueq: "u = (traj a ra k) \<lparr> consecutive_growth_months := counter_after a ra k \<rparr>" by simp
  have bk: "0 < balance_after a ra k" using u(2) ueq by (simp add: balance_after_def)
  have mk: "k < 1200" using u(3) ueq by (simp add: traj_months)
  from u(4) have body: "counter_after a ra (Suc k) < 420"
      "t = (traj a ra (Suc k)) \<lparr> consecutive_growth_months := counter_after a ra (Suc k) \<rparr>"
    unfolding ueq body_traj [OF ra] by (auto split: if_splits)
  have pos: "\<forall>j<Suc k. 0 < balance_after a ra j"
    using ih bk by (auto simp: less_Suc_eq)
  have small: "\<forall>j\<le>Suc k. counter_after a ra j < 420"
    using ih body(1) by (auto simp: le_Suc_eq)
  show ?case using body(2) mk pos small by simp
qed

lemma traj_state_at:
  assumes ra: "retirement_age a = Some ra"
  shows "k \<le> 1200 \<Longrightarrow> \<forall>j<k. 0 < balance_after a ra j \<Longrightarrow> \<forall>j\<le>k. counter_after a ra j < 420 \<Longrightarrow>
     state_at a (initial_state a) k
       = Some ((traj a ra k) \<lparr> consecutive_growth_months := counter_after a ra k \<rparr>)"
proof (induction k)
  case 0
  show ?case by (simp add: counter_after_0 initial_state_def)
next
  case (Suc k)
  let ?u = "(traj a ra k) \<lparr> consecutive_growth_months := counter_after a ra k \<rparr>"
  have "state_at a (initial_state a) k = Some ?u"
    using Suc.prems by (intro Suc.IH) auto
  moreover have "0 < current_balance ?u"
    using Suc.prems(2) by (simp add: balance_after_def)
  moreover have "months ?u < 1200"
    using Suc.prems(1) by (simp add: traj_months)
  moreover have "loop_body a ?u
      = Continue ((traj a ra (Suc k)) \<lparr> consecutive_growth_months := counter_after a ra (Suc k) \<rparr>)"
    using Suc.prems(3) unfolding body_traj [OF ra] by (auto simp del: funpow.simps)
  ultimately show ?case by (rule state_at_SucI)
qed


lemma counter_after_window:
  "counter_after a ra k = n \<Longrightarrow> k - n < j \<Longrightarrow> j \<le> k \<Longrightarrow> balance_after a ra j > (8 / 10) * balance a"
proof (induction k arbitrary: n)
  case 0
  then show ?case by simp
next
  case (Suc k)
  show ?case
  proof (cases "balance_after a ra (Suc k) > (8 / 10) * balance a")
    case True
    then have n: "n = counter_after a ra k + 1" using Suc.prems(1) unfolding counter_after_Suc by simp
    show ?thesis
    proof (cases "j = Suc k")
      case True
      with \<open>balance_after a ra (Suc k) > (8 / 10) * balance a\<close> show ?thesis by simp
    next
      case False
      with Suc.prems n have "k - counter_after a ra k < j" "j \<le> k" by auto
      with Suc.IH [OF refl] show ?thesis by blast
    qed
  next
    case False
    then have "n = 0" using Suc.prems(1) unfolding counter_after_Suc by simp
    with Suc.prems show ?thesis by simp
  qed
qed

lemma counter_after_all_qualify:
  "(\<And>j. 1 \<le> j \<Longrightarrow> j \<le> k \<Longrightarrow> balance_after a ra j > (8 / 10) * balance a) \<Longrightarrow> counter_after a ra k = k"
proof (induction k)
  case 0
  show ?case by (rule counter_after_0)
next
  case (Suc k)
  have "counter_after a ra k = k" using Suc.prems by (intro Suc.IH) auto
  moreover have "balance_after a ra (Suc k) > (8 / 10) * balance a"
    using Suc.prems [of "Suc k"] by simp
  ultimately show ?case unfolding counter_after_Suc by simp
qed

lemma counter_after_reset:
  "0 < k \<Longrightarrow> \<not> balance_after a ra k > (8 / 10) * balance a \<Longrightarrow> counter_after a ra k = 0"
  by (cases k) (simp_all only: counter_after_Suc, simp_all)

lemma perpetual_if_counter:
  assumes ra: "retirement_age a = Some ra"
    and k: "k \<le> 1200" "\<forall>j<k. 0 < balance_after a ra j" "counter_after a ra k = 420"
  shows "while_loop a (initial_state a) = Inr Infinity"
proof -
  obtain kf t where fin: "state_at a (initial_state a) kf = Some t" "final a t"
    using reaches_final by blast
  note tr = state_at_traj [OF ra fin(1)]
  from tr have teq: "t = (traj a ra kf) \<lparr> consecutive_growth_months := counter_after a ra kf \<rparr>" by simp
  have "kf < k"
  proof (rule ccontr)
    assume "\<not> kf < k"
    then have "counter_after a ra k < 420" using tr by simp
    with k(3) show False by simp
  qed
  then have cond: "0 < current_balance t" "months t < 1200"
    using k(1,2) teq by (simp_all add: balance_after_def traj_months)
  have "loop_body a t = Return Infinity"
    using fin(2) cond unfolding final_def teq body_traj [OF ra]
    by (auto split: if_splits)
  with cond have "while_loop a t = Inr Infinity" by (rule while_loop_return)
  then show ?thesis using state_at_while [OF fin(1)] by simp
qed

lemma counter_if_perpetual:
  assumes ra: "retirement_age a = Some ra"
    and inf: "while_loop a (initial_state a) = Inr Infinity"
  shows "\<exists>k\<le>1200. (\<forall>j<k. 0 < balance_after a ra j) \<and> counter_after a ra k = 420"
proof -
  obtain kf t where fin: "state_at a (initial_state a) kf = Some t" "final a t"
    using reaches_final by blast
  note tr = state_at_traj [OF ra fin(1)]
  from tr have teq: "t = (traj a ra kf) \<lparr> consecutive_growth_months := counter_after a ra kf \<rparr>" by simp
  have val: "(if 0 < current_balance t \<and> months t < 1200 then
        (case loop_body a t of Raise e \<Rightarrow> Inl e | Return v \<Rightarrow> Inr v
         | Continue t' \<Rightarrow> Inr (Finite 0))
      else Inr (Finite (real (months t) / 12))) = Inr Infinity"
    using while_loop_final [OF fin] inf by simp
  then have cond: "0 < current_balance t" "months t < 1200"
    by (auto split: if_splits)
  have "loop_body a t \<noteq> Continue ((traj a ra (Suc kf)) \<lparr> consecutive_growth_months := counter_after a ra (Suc kf) \<rparr>)"
    using val cond by auto
  then have big: "420 \<le> counter_after a ra (Suc kf)"
    unfolding teq body_traj [OF ra] by (auto split: if_splits)
  have "counter_after a ra kf < 420" using tr by simp
  with big have "counter_after a ra (Suc kf) = 420"
    unfolding counter_after_Suc by (auto split: if_splits)
  moreover have "Suc kf \<le> 1200" using cond(2) teq by (simp add: traj_months)
  moreover have "\<forall>j<Suc kf. 0 < balance_after a ra j"
    using tr cond(1) teq by (auto simp: less_Suc_eq balance_after_def)
  ultimately show ?thesis by blast
qed


subsection \<open>No growth, no Social Security, no guardrails\<close>

lemma month_update_linear:
  assumes "annual_rate a = 0" "monthly_ss a = 0" "\<not> use_guardrails a"
    "0 \<le> monthly_withdrawal a" "annual_withdrawal s = monthly_withdrawal a * 12"
  shows "month_update a ra s
     = s \<lparr> current_balance := current_balance s - monthly_withdrawal a, months := Suc (months s) \<rparr>"
  using assms by (simp add: month_update_def Let_def split: option.splits)

lemma traj_linear:
  assumes "annual_rate a = 0" "monthly_ss a = 0" "\<not> use_guardrails a"
    "0 \<le> monthly_withdrawal a"
  shows "traj a ra k
     = (initial_state a) \<lparr> current_balance := balance a - real k * monthly_withdrawal a,
                            months := k \<rparr>"
proof (induction k)
  case 0
  show ?case by (simp add: initial_state_def)
next
  case (Suc k)
  have "traj a ra (Suc k) = month_update a ra (traj a ra k)" by simp
  also have "\<dots> = month_update a ra ((initial_state a)
      \<lparr> current_balance := balance a - real k * monthly_withdrawal a, months := k \<rparr>)"
    by (simp only: Suc.IH)
  also have "\<dots> = (initial_state a)
      \<lparr> current_balance := balance a - real (Suc k) * monthly_withdrawal a, months := Suc k \<rparr>"
    by (subst month_update_linear [OF assms]) (simp_all add: initial_state_def algebra_simps)
  finally show ?case .
qed

lemma balance_after_linear:
  assumes "annual_rate a = 0" "monthly_ss a = 0" "\<not> use_guardrails a"
    "0 \<le> monthly_withdrawal a"
  shows "balance_after a ra k = balance a - real k * monthly_withdrawal a"
  unfolding balance_after_def traj_linear [OF assms] by simp

lemma exhausted_if_state:
  assumes "state_at a (initial_state a) k = Some t" "current_balance t \<le> 0"
  shows "while_loop a (initial_state a) = Inr (Finite (real k / 12))"
proof -
  have "months t = k" using state_at_months [OF assms(1)] by (simp add: initial_state_def)
  moreover have "while_loop a t = Inr (Finite (real (months t) / 12))"
    using assms(2) by (intro while_loop_stop) simp
  ultimately show ?thesis using state_at_while [OF assms(1)] by simp
qed

lemma straight_line:
  assumes B: "0 < balance a" and r: "0 < r" and d: "balance a / (balance a * r / 12) \<le> 1200"
    and w: "monthly_withdrawal a = balance a * r / 12"
    and lin: "annual_rate a = 0" "monthly_ss a = 0" "\<not> use_guardrails a"
    and ra: "retirement_age a = Some ra"
  shows "while_loop a (initial_state a)
     = Inr (Finite (real_of_int \<lceil>balance a / (balance a * r / 12)\<rceil> / 12))"
proof -
  define m where "m = nat \<lceil>12 / r\<rceil>"
  have deq: "balance a / (balance a * r / 12) = 12 / r" using B r by (simp add: field_simps)
  have d': "12 / r \<le> 1200" using d deq by simp
  have r100: "1 / 100 \<le> r" using d' r by (simp add: field_simps)
  have w0: "0 \<le> monthly_withdrawal a" unfolding w using B r by simp
  have bal: "balance_after a ra k = balance a * (1 - real k * r / 12)" for k
    unfolding balance_after_linear [OF lin w0] w by (simp add: algebra_simps)
  have mreal: "real m = real_of_int \<lceil>12 / r\<rceil>"
    unfolding m_def using r by (simp add: of_nat_nat ceiling_le_zero not_le less_imp_le)
  have m_ge: "12 / r \<le> real m" unfolding mreal by (rule le_of_int_ceiling)
  have m_le: "m \<le> 1200"
  proof -
    have "\<lceil>12 / r\<rceil> \<le> 1200" using d' by (simp add: ceiling_le_iff)
    then show ?thesis unfolding m_def by simp
  qed
  have pos: "0 < balance_after a ra j" if "j < m" for j
  proof -
    have "int j < \<lceil>12 / r\<rceil>" using that unfolding m_def by simp
    then have "real j < 12 / r" by (simp add: less_ceiling_iff)
    then have "real j * r < 12" using r by (simp add: field_simps)
    then have "0 < 1 - real j * r / 12" by simp
    then show ?thesis unfolding bal using B by simp
  qed
  have spent: "balance_after a ra m \<le> 0"
  proof -
    have "12 \<le> real m * r" using m_ge r by (simp add: field_simps)
    then have "1 - real m * r / 12 \<le> 0" by simp
    then show ?thesis unfolding bal using B by (simp add: mult_le_0_iff)
  qed
  have small: "counter_after a ra j < 420" for j
  proof (cases "j < 420")
    case True
    then show ?thesis using counter_after_le [of a ra j] by simp
  next
    case False
    then have "420 \<le> real j" by simp
    then have "420 * (1 / 100) \<le> real j * r"
      using r100 by (intro mult_mono) simp_all
    then have "1 - real j * r / 12 \<le> 8 / 10" by simp
    then have "balance a * (1 - real j * r / 12) \<le> balance a * (8 / 10)"
      using B by (intro mult_left_mono) simp_all
    then have "\<not> balance_after a ra j > (8 / 10) * balance a"
      unfolding bal by (simp add: mult.commute)
    moreover have "0 < j" using False by simp
    ultimately have "counter_after a ra j = 0" by (intro counter_after_reset)
    then show ?thesis by simp
  qed
  have "state_at a (initial_state a) m
      = Some ((traj a ra m) \<lparr> consecutive_growth_months := counter_after a ra m \<rparr>)"
    using m_le pos small by (intro traj_state_at [OF ra]) auto
  moreover have "current_balance ((traj a ra m) \<lparr> consecutive_growth_months := counter_after a ra m \<rparr>) \<le> 0"
    using spent by (simp add: balance_after_def)
  ultimately have "while_loop a (initial_state a) = Inr (Finite (real m / 12))"
    by (rule exhausted_if_state)
  then show ?thesis unfolding mreal deq .
qed


subsection \<open>Perpetual-fund detection\<close>

lemma calculate_eq_loop:
  "balance a \<noteq> 0 \<Longrightarrow> calculate_withdrawal_years_enhanced a = while_loop a (initial_state a)"
  by (simp add: calculate_withdrawal_years_enhanced_def)

lemma counter_not_420_zero_balance:
  assumes "balance a = 0" "(\<forall>j<k. 0 < balance_after a ra j)"
  shows "counter_after a ra k \<noteq> 420"
proof (cases k)
  case 0
  then show ?thesis by (simp add: counter_after_0)
next
  case (Suc n)
  then have "0 < balance_after a ra 0" using assms(2) by simp
  then show ?thesis using assms(1) by (simp add: balance_after_0)
qed

lemma perpetual_iff:
  assumes ra: "retirement_age a = Some ra"
  shows "calculate_withdrawal_years_enhanced a = Inr Infinity
     \<longleftrightarrow> (\<exists>k\<le>1200. (\<forall>j<k. 0 < balance_after a ra j) \<and> counter_after a ra k = 420)"
proof (cases "balance a = 0")
  case True
  then show ?thesis
    using counter_not_420_zero_balance [OF True]
    by (auto simp: calculate_withdrawal_years_enhanced_def)
next
  case False
  show ?thesis
    unfolding calculate_eq_loop [OF False]
    using perpetual_if_counter [OF ra] counter_if_perpetual [OF ra] by blast
qed

lemma growing_balance:
  assumes B: "0 < balance a"
    and mono: "\<forall>j<n. balance_after a ra j \<le> balance_after a ra (Suc j)"
  shows "j \<le> n \<Longrightarrow> balance a \<le> balance_after a ra j"
proof (induction j)
  case 0
  show ?case by (simp add: balance_after_0)
next
  case (Suc j)
  then have "balance a \<le> balance_after a ra j" by simp
  also have "\<dots> \<le> balance_after a ra (Suc j)" using mono Suc.prems by simp
  finally show ?case .
qed

lemma perpetual_if_growing:
  assumes ra: "retirement_age a = Some ra"
    and B: "0 < balance a"
    and mono: "\<forall>j<420. balance_after a ra j \<le> balance_after a ra (Suc j)"
  shows "calculate_withdrawal_years_enhanced a = Inr Infinity"
    and "state_at a (initial_state a) 419 \<noteq> None"
    and "state_at a (initial_state a) 420 = None"
proof -
  have ge: "balance a \<le> balance_after a ra j" if "j \<le> 420" for j
    using growing_balance [OF B mono that] .
  have qual: "balance_after a ra j > (8 / 10) * balance a" if "j \<le> 420" for j
    using ge [OF that] B by simp
  have pos: "0 < balance_after a ra j" if "j \<le> 420" for j
    using ge [OF that] B by simp
  have cnt: "counter_after a ra j = j" if "j \<le> 420" for j
    using that qual by (intro counter_after_all_qualify) simp
  show inf: "calculate_withdrawal_years_enhanced a = Inr Infinity"
    unfolding perpetual_iff [OF ra]
    using pos cnt [of 420] by (intro exI [of _ 420]) simp
  have s419: "state_at a (initial_state a) 419
      = Some ((traj a ra 419) \<lparr> consecutive_growth_months := counter_after a ra 419 \<rparr>)"
    using pos cnt by (intro traj_state_at [OF ra]) simp_all
  then show "state_at a (initial_state a) 419 \<noteq> None" by simp
  have "counter_after a ra 420 = 420" using cnt by simp
  then have "\<not> (\<forall>j\<le>420. counter_after a ra j < 420)" by auto
  then have "state_at a (initial_state a) 420 = Some t \<Longrightarrow> False" for t
    using state_at_traj [OF ra, of 420 t] by blast
  then show "state_at a (initial_state a) 420 = None" by (cases "state_at a (initial_state a) 420") auto
qed

lemma not_perpetual_if_dips:
  assumes ra: "retirement_age a = Some ra"
    and dips: "\<forall>k. 420 \<le> k \<and> k \<le> 1200 \<longrightarrow>
       (\<exists>j. k - 420 < j \<and> j \<le> k \<and> balance_after a ra j \<le> (8 / 10) * balance a)"
  shows "calculate_withdrawal_years_enhanced a \<noteq> Inr Infinity"
proof
  assume "calculate_withdrawal_years_enhanced a = Inr Infinity"
  then obtain k where k: "k \<le> 1200" "counter_after a ra k = 420"
    unfolding perpetual_iff [OF ra] by blast
  have "420 \<le> k" using counter_after_le [of a ra k] k(2) by simp
  with dips k(1) obtain j where j: "k - 420 < j" "j \<le> k"
      "balance_after a ra j \<le> (8 / 10) * balance a" by blast
  have "balance_after a ra j > (8 / 10) * balance a"
    using k(2) j(1,2) by (rule counter_after_window)
  with j(3) show False by simp
qed

text \<open>
  Claim C2. For a retirement age that is a number, the simulator returns the perpetual
  sentinel exactly when, in some month \<open>k\<close> of the run (at most 1200 months, the balance
  positive at the end of every earlier month), the specification's counter of consecutive
  months with month-end balance above 80\% of the original balance reaches 420. In
  particular a balance that never falls from one month to the next makes the simulator
  return the sentinel in month 420, and a run whose balance is at or below 80\% of the
  original at least once in every window of 420 months never returns it.
\<close>

theorem perpetual_detection:
  assumes "retirement_age a = Some ra"
  shows "(calculate_withdrawal_years_enhanced a = Inr Infinity
       \<longleftrightarrow> (\<exists>k\<le>1200. (\<forall>j<k. 0 < balance_after a ra j)
             \<and> perpetual_counter (balance a) (map (balance_after a ra) [1..<Suc k]) = 420))
     \<and> (0 < balance a \<and> (\<forall>j<420. balance_after a ra j \<le> balance_after a ra (Suc j))
        \<longrightarrow> calculate_withdrawal_years_enhanced a = Inr Infinity
            \<and> state_at a (initial_state a) 419 \<noteq> None
            \<and> state_at a (initial_state a) 420 = None)
     \<and> ((\<forall>k. 420 \<le> k \<and> k \<le> 1200 \<longrightarrow>
            (\<exists>j. k - 420 < j \<and> j \<le> k \<and> balance_after a ra j \<le> (8 / 10) * balance a))
        \<longrightarrow> calculate_withdrawal_years_enhanced a \<noteq> Inr Infinity)"
  using perpetual_iff [OF assms] perpetual_if_growing [OF assms] not_perpetual_if_dips [OF assms]
  unfolding counter_after_def by blast

lemma steady_balance: "balance_after steady_args 62 k = 1000"
  by (subst balance_after_linear) (simp_all add: steady_args_def)

lemma four_percent_balance: "balance_after four_percent_args 62 k = 120000 - real k * 400"
  by (subst balance_after_linear) (simp_all add: four_percent_args_def)

theorem perpetual_detection_witness:
  "calculate_withdrawal_years_enhanced steady_args = Inr Infinity
   \<and> calculate_withdrawal_years_enhanced four_percent_args \<noteq> Inr Infinity"
proof -
  have ra1: "retirement_age steady_args = Some 62" by (simp add: steady_args_def)
  have ra2: "retirement_age four_percent_args = Some 62" by (simp add: four_percent_args_def)
  have grow: "0 < balance steady_args
      \<and> (\<forall>j<420. balance_after steady_args 62 j \<le> balance_after steady_args 62 (Suc j))"
    by (simp add: steady_balance) (simp add: steady_args_def)
  have dips: "\<forall>k. 420 \<le> k \<and> k \<le> 1200 \<longrightarrow>
      (\<exists>j. k - 420 < j \<and> j \<le> k
         \<and> balance_after four_percent_args 62 j \<le> (8 / 10) * balance four_percent_args)"
  proof (intro allI impI)
    fix k :: nat
    assume k: "420 \<le> k \<and> k \<le> 1200"
    then have "60 \<le> real k" by simp
    then have "balance_after four_percent_args 62 k \<le> (8 / 10) * balance four_percent_args"
      unfolding four_percent_balance by (simp add: four_percent_args_def)
    with k show "\<exists>j. k - 420 < j \<and> j \<le> k
         \<and> balance_after four_percent_args 62 j \<le> (8 / 10) * balance four_percent_args"
      by (intro exI [of _ k]) simp
  qed
  show ?thesis
    using perpetual_detection [OF ra1] perpetual_detection [OF ra2] grow dips by blast
qed


subsection \<open>Straight-line depletion\<close>

text \<open>
  Claim C8. With a starting balance \<open>B > 0\<close>, a withdrawal rate \<open>r > 0\<close> (a monthly
  withdrawal of \<open>B r / 12\<close>), no growth, no Social Security and the guardrails disabled,
  the balance after \<open>k\<close> months is \<open>B - k (B r / 12)\<close>, a straight line; and when the
  duration \<open>B / (B r / 12)\<close> months is within the 1200-month ceiling the simulator
  returns that duration rounded up to whole months, less than one month above it,
  expressed in years.
\<close>

theorem straight_line_depletion:
  assumes "0 < balance a" and "0 < r" and "balance a / (balance a * r / 12) \<le> 1200"
    and "monthly_withdrawal a = balance a * r / 12"
    and "annual_rate a = 0" and "monthly_ss a = 0" and "\<not> use_guardrails a"
    and "retirement_age a = Some ra"
  shows "calculate_withdrawal_years_enhanced a
       = Inr (Finite (real_of_int \<lceil>balance a / (balance a * r / 12)\<rceil> / 12))
     \<and> (\<forall>k. balance_after a ra k = balance a - real k * (balance a * r / 12))
     \<and> balance a / (balance a * r / 12) \<le> real_of_int \<lceil>balance a / (balance a * r / 12)\<rceil>
     \<and> real_of_int \<lceil>balance a / (balance a * r / 12)\<rceil> < balance a / (balance a * r / 12) + 1"
proof -
  have w0: "0 \<le> monthly_withdrawal a" unfolding assms(4) using assms(1,2) by simp
  have "calculate_withdrawal_years_enhanced a = while_loop a (initial_state a)"
    using assms(1) by (intro calculate_eq_loop) simp
  then have "calculate_withdrawal_years_enhanced a
       = Inr (Finite (real_of_int \<lceil>balance a / (balance a * r / 12)\<rceil> / 12))"
    using straight_line [OF assms] by simp
  moreover have "\<forall>k. balance_after a ra k = balance a - real k * (balance a * r / 12)"
    using balance_after_linear [OF assms(5-7) w0] assms(4) by simp
  moreover have "x \<le> real_of_int \<lceil>x\<rceil> \<and> real_of_int \<lceil>x\<rceil> < x + 1" for x :: real
    using ceiling_correct [of x] by linarith
  ultimately show ?thesis by blast
qed

theorem straight_line_depletion_witness:
  "calculate_withdrawal_years_enhanced four_percent_args = Inr (Finite 25)
   \<and> balance_after four_percent_args 62 300 = 0"
proof -
  have "calculate_withdrawal_years_enhanced four_percent_args
       = Inr (Finite (real_of_int \<lceil>balance four_percent_args
            / (balance four_percent_args * (4 / 100) / 12)\<rceil> / 12))
     \<and> (\<forall>k. balance_after four_percent_args 62 k
            = balance four_percent_args - real k * (balance four_percent_args * (4 / 100) / 12))"
    using straight_line_depletion [of four_percent_args "4 / 100" 62]
    by (simp add: four_percent_args_def)
  then show ?thesis by (simp add: four_percent_args_def)
qed

subsection \<open>A declining fund reported as perpetual\<close>

lemma slow_decline_balance:
  "balance_after slow_decline_args 62 k = 1000 - real k * (2 / 5)"
  by (subst balance_after_linear) (simp_all add: slow_decline_args_def)

lemma slow_decline_perpetual:
  "calculate_withdrawal_years_enhanced slow_decline_args = Inr Infinity"
proof -
  have ra: "retirement_age slow_decline_args = Some 62" by (simp add: slow_decline_args_def)
  have B: "balance slow_decline_args = 1000" by (simp add: slow_decline_args_def)
  have "counter_after slow_decline_args 62 420 = 420"
    by (rule counter_after_all_qualify) (simp add: slow_decline_balance B)
  moreover have "\<forall>j<420. 0 < balance_after slow_decline_args 62 j"
    by (simp add: slow_decline_balance)
  ultimately show ?thesis
    unfolding perpetual_iff [OF ra] by (intro exI [of _ 420]) simp
qed

text \<open>
  Claim C10. There is an input on which the simulator returns the perpetual sentinel
  although the balance falls in every single month: a fund of 1000 drawn down by 0.40 a
  month is at 832, still above 80\% of the original, after 420 months.
\<close>

theorem declining_fund_reported_perpetual:
  "calculate_withdrawal_years_enhanced slow_decline_args = Inr Infinity
   \<and> (\<forall>k. balance_after slow_decline_args 62 (Suc k) < balance_after slow_decline_args 62 k)
   \<and> balance_after slow_decline_args 62 0 = 1000
   \<and> balance_after slow_decline_args 62 420 = 832"
  using slow_decline_perpetual by (simp add: slow_decline_balance)

subsection \<open>The sentinel is the float infinity\<close>

lemma steady_perpetual: "calculate_withdrawal_years_enhanced steady_args = Inr Infinity"
proof -
  have "retirement_age steady_args = Some 62" by (simp add: steady_args_def)
  moreover have "0 < balance steady_args" by (simp add: steady_args_def)
  moreover have "\<forall>j<420. balance_after steady_args 62 j \<le> balance_after steady_args 62 (Suc j)"
    by (simp add: steady_balance)
  ultimately show ?thesis by (rule perpetual_if_growing(1))
qed

text \<open>
  Claim C6, as stated: the value that means "funds never exhaust" is a tagged sentinel
  and not a floating-point infinity. The code returns \<^verbatim>\<open>float('inf')\<close>: for the fund
  nobody draws on, the result is the float \<open>Infinity\<close>.
\<close>

theorem never_exhaust_counterexample:
  "calculate_withdrawal_years_enhanced steady_args = Inr Infinity"
  by (rule steady_perpetual)

lemma loop_body_returns_infinity: "loop_body a s = Return v \<Longrightarrow> v = Infinity"
  by (auto simp: loop_body_def Let_def split: option.splits if_splits)

lemma final_state_bounded:
  "\<exists>k\<le>1200. \<exists>t. state_at a (initial_state a) k = Some t \<and> months t = k \<and> final a t"
proof -
  obtain k t where fin: "state_at a (initial_state a) k = Some t" "final a t"
    using reaches_final by blast
  have m: "months t = k" using state_at_months [OF fin(1)] by (simp add: initial_state_def)
  have "k \<le> 1200"
  proof (cases "0 < k")
    case True
    then show ?thesis using state_at_bound [OF fin(1)] by simp
  qed simp
  with fin m show ?thesis by blast
qed

lemma result_shape:
  assumes "calculate_withdrawal_years_enhanced a = Inr v"
  shows "v = Infinity \<or> (\<exists>m\<le>1200. v = Finite (real m / 12))"
proof -
  have nz: "balance a \<noteq> 0" using assms by (auto simp: calculate_withdrawal_years_enhanced_def)
  obtain k t where fin: "k \<le> 1200" "state_at a (initial_state a) k = Some t" "months t = k"
      "final a t"
    using final_state_bounded by blast
  have "while_loop a (initial_state a) = Inr v" using assms calculate_eq_loop [OF nz] by simp
  then have val: "(if 0 < current_balance t \<and> months t < 1200 then
        (case loop_body a t of Raise e \<Rightarrow> Inl e | Return v \<Rightarrow> Inr v
         | Continue t' \<Rightarrow> Inr (Finite 0))
      else Inr (Finite (real (months t) / 12))) = Inr v"
    using while_loop_final [OF fin(2,4)] by simp
  show ?thesis
  proof (cases "0 < current_balance t \<and> months t < 1200")
    case True
    show ?thesis
    proof (cases "loop_body a t")
      case (Raise e)
      with val True show ?thesis by simp
    next
      case (Return x)
      then have "x = Infinity" by (rule loop_body_returns_infinity)
      with val True Return show ?thesis by simp
    next
      case (Continue t')
      with fin(4) True show ?thesis by (simp add: final_def)
    qed
  next
    case False
    then have "v = Finite (real (months t) / 12)" using val by (simp only: if_False) simp
    with fin(1,3) show ?thesis by blast
  qed
qed

text \<open>
  Claim C6, amended: the value returned to mean "funds never exhaust" is the
  floating-point infinity; it differs from every numeric result, because a numeric
  result is \<open>months / 12\<close> for at most 1200 months, a finite float not above 100.
\<close>

theorem never_exhaust_is_float_infinity:
  "(loop_body a s = Return v \<longrightarrow> v = Infinity)
   \<and> (calculate_withdrawal_years_enhanced a = Inr v \<longrightarrow>
        v = Infinity \<or> (\<exists>m\<le>1200. v = Finite (real m / 12) \<and> real m / 12 \<le> 100))
   \<and> Finite x \<noteq> Infinity"
  using loop_body_returns_infinity [of a s v] result_shape [of a v] by auto

theorem never_exhaust_is_float_infinity_witness:
  "loop_body steady_args \<lparr> current_balance = 1000, months = 419, current_withdrawal_rate = 0,
       annual_withdrawal = 0, consecutive_growth_months = 419 \<rparr> = Return Infinity
   \<and> calculate_withdrawal_years_enhanced four_percent_args = Inr (Finite 25)
   \<and> (\<exists>m\<le>1200. Finite 25 = Finite (real m / 12) \<and> real m / 12 \<le> 100)"
proof -
  have a: "calculate_withdrawal_years_enhanced four_percent_args = Inr (Finite 25)"
    using straight_line [of four_percent_args "4 / 100" 62]
    by (simp add: calculate_withdrawal_years_enhanced_def four_percent_args_def)
  have b: "loop_body steady_args \<lparr> current_balance = 1000, months = 419,
       current_withdrawal_rate = 0, annual_withdrawal = 0, consecutive_growth_months = 419 \<rparr>
       = Return Infinity"
    by (simp add: loop_body_def month_update_def steady_args_def)
  show ?thesis
    using never_exhaust_is_float_infinity [where a = four_percent_args and v = "Finite 25"]
      never_exhaust_is_float_infinity [where a = steady_args and v = Infinity
        and s = "\<lparr> current_balance = 1000, months = 419, current_withdrawal_rate = 0,
          annual_withdrawal = 0, consecutive_growth_months = 419 \<rparr>"] a b
    by simp
qed


subsection \<open>Termination and the 1200-month ceiling\<close>

lemma no_state_beyond_ceiling: "1200 < k \<Longrightarrow> state_at a (initial_state a) k = None"
proof (rule ccontr)
  assume k: "1200 < k" and "state_at a (initial_state a) k \<noteq> None"
  then obtain t where "state_at a (initial_state a) k = Some t" by auto
  then have "months (initial_state a) + k \<le> 1200" using k by (intro state_at_bound) simp_all
  with k show False by simp
qed

lemma pass_needs_condition:
  assumes "state_at a (initial_state a) (Suc k) = Some t"
  shows "\<exists>u. state_at a (initial_state a) k = Some u \<and> 0 < current_balance u
           \<and> months u < 1200 \<and> months u = k \<and> loop_body a u = Continue t"
proof -
  from assms obtain u where u: "state_at a (initial_state a) k = Some u" "0 < current_balance u"
      "months u < 1200" "loop_body a u = Continue t"
    by (rule state_at_SucD)
  have "months u = k" using state_at_months [OF u(1)] by (simp add: initial_state_def)
  with u show ?thesis by blast
qed

lemma ceiling_result:
  assumes "state_at a (initial_state a) 1200 = Some t"
  shows "months t = 1200" "calculate_withdrawal_years_enhanced a = Inr (Finite 100)"
proof -
  show m: "months t = 1200" using state_at_months [OF assms] by (simp add: initial_state_def)
  have "state_at a (initial_state a) (Suc 0) \<noteq> None"
  proof
    assume "state_at a (initial_state a) (Suc 0) = None"
    then have "state_at a (initial_state a) 1200 = None"
      by (rule state_at_None_mono [rotated]) simp
    with assms show False by simp
  qed
  then obtain t1 where "state_at a (initial_state a) (Suc 0) = Some t1"
    unfolding not_None_eq by blast
  then obtain u where "state_at a (initial_state a) 0 = Some u" "0 < current_balance u"
    by (rule state_at_SucD)
  then have "0 < balance a" by (auto simp: initial_state_def)
  then have "calculate_withdrawal_years_enhanced a = while_loop a (initial_state a)"
    by (intro calculate_eq_loop) simp
  also have "\<dots> = while_loop a t" using assms by (rule state_at_while)
  also have "\<dots> = Inr (Finite (real (months t) / 12))" using m by (intro while_loop_stop) simp
  finally show "calculate_withdrawal_years_enhanced a = Inr (Finite 100)" using m by simp
qed

lemma stop_result:
  assumes "balance a \<noteq> 0" "state_at a (initial_state a) k = Some t"
    "\<not> (0 < current_balance t \<and> months t < 1200)"
  shows "calculate_withdrawal_years_enhanced a = Inr (Finite (real k / 12))"
proof -
  have "months t = k" using state_at_months [OF assms(2)] by (simp add: initial_state_def)
  moreover have "while_loop a t = Inr (Finite (real (months t) / 12))"
    using assms(3) by (rule while_loop_stop)
  ultimately show ?thesis
    using calculate_eq_loop [OF assms(1)] state_at_while [OF assms(2)] by simp
qed

text \<open>
  Claim C9. The simulation terminates for every input: the loop ends after at most 1200
  passes, no pass is made beyond the ceiling, and a pass is only made from a state with a
  positive balance and fewer than 1200 elapsed months. When the loop condition fails after
  \<open>k\<close> passes the result is \<open>k / 12\<close>; in particular a run that reaches the 1200-month
  ceiling without exhaustion or perpetual detection returns \<open>months / 12 = 100\<close>. (That
  every call returns a value at all is the termination proof of \<open>while_loop\<close>.)
\<close>

theorem withdrawal_loop_terminates:
  "(\<exists>k\<le>1200. \<exists>t. state_at a (initial_state a) k = Some t \<and> months t = k \<and> final a t)
   \<and> (\<forall>k. 1200 < k \<longrightarrow> state_at a (initial_state a) k = None)
   \<and> (\<forall>k t. state_at a (initial_state a) (Suc k) = Some t \<longrightarrow>
         (\<exists>u. state_at a (initial_state a) k = Some u
            \<and> 0 < current_balance u \<and> months u < 1200 \<and> months u = k))
   \<and> (\<forall>k t. balance a \<noteq> 0 \<and> state_at a (initial_state a) k = Some t
           \<and> \<not> (0 < current_balance t \<and> months t < 1200) \<longrightarrow>
         calculate_withdrawal_years_enhanced a = Inr (Finite (real k / 12)))
   \<and> (\<forall>t. state_at a (initial_state a) 1200 = Some t \<longrightarrow>
         months t = 1200 \<and> calculate_withdrawal_years_enhanced a = Inr (Finite 100))"
proof (intro conjI allI impI)
  show "\<exists>k\<le>1200. \<exists>t. state_at a (initial_state a) k = Some t \<and> months t = k \<and> final a t"
    by (rule final_state_bounded)
next
  fix k :: nat assume "1200 < k"
  then show "state_at a (initial_state a) k = None" by (rule no_state_beyond_ceiling)
next
  fix k t assume "state_at a (initial_state a) (Suc k) = Some t"
  then show "\<exists>u. state_at a (initial_state a) k = Some u
            \<and> 0 < current_balance u \<and> months u < 1200 \<and> months u = k"
    using pass_needs_condition by blast
next
  fix k t assume "balance a \<noteq> 0 \<and> state_at a (initial_state a) k = Some t
           \<and> \<not> (0 < current_balance t \<and> months t < 1200)"
  then show "calculate_withdrawal_years_enhanced a = Inr (Finite (real k / 12))"
    using stop_result by blast
next
  fix t assume "state_at a (initial_state a) 1200 = Some t"
  then show "months t = 1200" by (rule ceiling_result(1))
next
  fix t assume "state_at a (initial_state a) 1200 = Some t"
  then show "calculate_withdrawal_years_enhanced a = Inr (Finite 100)" by (rule ceiling_result(2))
qed

lemma bridged_fields:
  "balance bridged_args = 1000" "retirement_age bridged_args = Some 60"
  by (simp_all add: bridged_args_def)

lemma bridged_traj:
  "traj bridged_args 60 (Suc k)
     = \<lparr> current_balance = 750, months = Suc k, current_withdrawal_rate = 3,
         annual_withdrawal = 3000, consecutive_growth_months = 0 \<rparr>"
proof (induction k)
  case 0
  show ?case by (simp add: month_update_def initial_state_def bridged_args_def)
next
  case (Suc k)
  have "traj bridged_args 60 (Suc (Suc k)) = month_update bridged_args 60 (traj bridged_args 60 (Suc k))"
    by simp
  also have "\<dots> = \<lparr> current_balance = 750, months = Suc (Suc k), current_withdrawal_rate = 3,
         annual_withdrawal = 3000, consecutive_growth_months = 0 \<rparr>"
    unfolding Suc.IH by (simp add: month_update_def bridged_args_def field_simps)
  finally show ?case .
qed

lemma bridged_balance:
  "balance_after bridged_args 60 k = (if k = 0 then 1000 else 750)"
proof (cases k)
  case 0
  then show ?thesis by (simp add: balance_after_0 bridged_fields)
next
  case (Suc n)
  then show ?thesis unfolding balance_after_def by (simp only: bridged_traj) simp
qed

lemma bridged_counter: "counter_after bridged_args 60 k = 0"
proof (cases "0 < k")
  case True
  then show ?thesis
    by (intro counter_after_reset) (simp_all add: bridged_balance bridged_fields)
qed (simp add: counter_after_0)

lemma bridged_state:
  "state_at bridged_args (initial_state bridged_args) 1200
     = Some \<lparr> current_balance = 750, months = 1200, current_withdrawal_rate = 3,
         annual_withdrawal = 3000, consecutive_growth_months = 0 \<rparr>"
proof -
  have "state_at bridged_args (initial_state bridged_args) 1200
     = Some ((traj bridged_args 60 1200)
         \<lparr> consecutive_growth_months := counter_after bridged_args 60 1200 \<rparr>)"
    by (rule traj_state_at) (simp_all add: bridged_balance bridged_counter bridged_fields)
  moreover have "traj bridged_args 60 1200 = traj bridged_args 60 (Suc 1199)" by simp
  ultimately show ?thesis by (simp only: bridged_traj bridged_counter) simp
qed

theorem withdrawal_loop_terminates_witness:
  "state_at bridged_args (initial_state bridged_args) 1200
     = Some \<lparr> current_balance = 750, months = 1200, current_withdrawal_rate = 3,
         annual_withdrawal = 3000, consecutive_growth_months = 0 \<rparr>
   \<and> calculate_withdrawal_years_enhanced bridged_args = Inr (Finite 100)"
  using withdrawal_loop_terminates [of bridged_args] bridged_state by simp


subsection \<open>Guardrail adjustment\<close>

lemma month_update_rate:
  "current_withdrawal_rate (month_update a ra s)
     = (let m = Suc (months s);
            bal = current_balance s * (1 + annual_rate a / 12);
            implied_rate = (if bal \<le> 0 then upper_bound a else annual_withdrawal s / bal)
        in if use_guardrails a \<and> m mod 12 = 0 \<and> implied_rate > upper_bound a then
             max (lower_bound a) (current_withdrawal_rate s * (95 / 100))
           else if use_guardrails a \<and> m mod 12 = 0 \<and> implied_rate < lower_bound a
                   \<and> current_withdrawal_rate s < upper_bound a then
             min (upper_bound a) (current_withdrawal_rate s * (105 / 100))
           else current_withdrawal_rate s)"
  by (simp add: month_update_def Let_def not_le not_less)

lemma month_update_withdrawal:
  "annual_withdrawal (month_update a ra s)
     = (let m = Suc (months s);
            bal = current_balance s * (1 + annual_rate a / 12);
            implied_rate = (if bal \<le> 0 then upper_bound a else annual_withdrawal s / bal)
        in if use_guardrails a \<and> m mod 12 = 0
                \<and> (implied_rate > upper_bound a
                     \<or> implied_rate < lower_bound a \<and> current_withdrawal_rate s < upper_bound a)
           then bal * current_withdrawal_rate (month_update a ra s)
           else annual_withdrawal s)"
  by (simp add: month_update_def Let_def not_le not_less)

lemma loop_body_Continue_fields:
  assumes "retirement_age a = Some ra" "loop_body a s = Continue s'"
  shows "current_withdrawal_rate s' = current_withdrawal_rate (month_update a ra s)"
    and "annual_withdrawal s' = annual_withdrawal (month_update a ra s)"
  using assms by (auto simp: loop_body_def Let_def split: if_splits)

lemma loop_body_Continue_age:
  "loop_body a s = Continue s' \<Longrightarrow> \<exists>ra. retirement_age a = Some ra"
  by (auto simp: loop_body_def split: option.splits)

text \<open>
  Claim C1. With the guardrails enabled, let a run pass from state \<open>s\<close> after month \<open>k\<close>
  to state \<open>s'\<close> after month \<open>k + 1\<close>, let \<open>bal\<close> be the balance of \<open>s\<close> after the month's
  growth, and let \<open>implied_rate\<close> be \<open>annual_withdrawal / bal\<close>, or \<open>upper_bound\<close> when
  \<open>bal \<le> 0\<close>. If month \<open>k + 1\<close> is a multiple of 12 and \<open>implied_rate > upper_bound\<close>, the
  rate is multiplied by 0.95 and floored at \<open>lower_bound\<close>; otherwise, if the month is a
  multiple of 12, \<open>implied_rate < lower_bound\<close> and the rate is below \<open>upper_bound\<close>, the
  rate is multiplied by 1.05 and capped at \<open>upper_bound\<close>; in both cases the annual
  withdrawal becomes \<open>bal\<close> times the new rate. In every other case, and in every month
  that is not a multiple of 12, rate and annual withdrawal are unchanged.
\<close>

theorem guardrail_adjustment:
  assumes "use_guardrails a"
    and "state_at a (initial_state a) k = Some s"
    and "state_at a (initial_state a) (Suc k) = Some s'"
    and "bal = current_balance s * (1 + annual_rate a / 12)"
    and "implied_rate = (if bal \<le> 0 then upper_bound a else annual_withdrawal s / bal)"
  shows "months s' = Suc k
     \<and> (if Suc k mod 12 = 0 \<and> implied_rate > upper_bound a then
           current_withdrawal_rate s'
             = max (lower_bound a) (current_withdrawal_rate s * (95 / 100))
           \<and> annual_withdrawal s' = bal * current_withdrawal_rate s'
         else if Suc k mod 12 = 0 \<and> implied_rate < lower_bound a
                 \<and> current_withdrawal_rate s < upper_bound a then
           current_withdrawal_rate s'
             = min (upper_bound a) (current_withdrawal_rate s * (105 / 100))
           \<and> annual_withdrawal s' = bal * current_withdrawal_rate s'
         else current_withdrawal_rate s' = current_withdrawal_rate s
           \<and> annual_withdrawal s' = annual_withdrawal s)"
proof -
  have ms: "months s = k" using state_at_months [OF assms(2)] by (simp add: initial_state_def)
  have ms': "months s' = Suc k" using state_at_months [OF assms(3)] by (simp add: initial_state_def)
  from assms(3) obtain u where u: "state_at a (initial_state a) k = Some u"
      "loop_body a u = Continue s'"
    by (rule state_at_SucD)
  with assms(2) have body: "loop_body a s = Continue s'" by simp
  then obtain ra where ra: "retirement_age a = Some ra" using loop_body_Continue_age by blast
  note f = loop_body_Continue_fields [OF ra body]
  have r: "current_withdrawal_rate s'
     = (if Suc k mod 12 = 0 \<and> implied_rate > upper_bound a then
             max (lower_bound a) (current_withdrawal_rate s * (95 / 100))
           else if Suc k mod 12 = 0 \<and> implied_rate < lower_bound a
                   \<and> current_withdrawal_rate s < upper_bound a then
             min (upper_bound a) (current_withdrawal_rate s * (105 / 100))
           else current_withdrawal_rate s)"
    unfolding f(1) month_update_rate Let_def ms assms(4,5) using assms(1) by simp
  have w: "annual_withdrawal s'
     = (if Suc k mod 12 = 0
                \<and> (implied_rate > upper_bound a
                     \<or> implied_rate < lower_bound a \<and> current_withdrawal_rate s < upper_bound a)
           then bal * current_withdrawal_rate s'
           else annual_withdrawal s)"
    unfolding f month_update_withdrawal Let_def ms assms(4,5) using assms(1) by simp
  show ?thesis using ms' r w by (simp split: if_splits)
qed

lemma guarded_body_early:
  assumes "k < 11"
  shows "loop_body guarded_args \<lparr> current_balance = 1200 - 10 * real k, months = k,
        current_withdrawal_rate = 1 / 10, annual_withdrawal = 120,
        consecutive_growth_months = k \<rparr>
     = Continue \<lparr> current_balance = 1200 - 10 * real (Suc k), months = Suc k,
        current_withdrawal_rate = 1 / 10, annual_withdrawal = 120,
        consecutive_growth_months = Suc k \<rparr>"
proof -
  have m: "Suc k mod 12 \<noteq> 0" using assms by presburger
  have b: "real k < 11" using assms by simp
  show ?thesis
    using m b by (simp add: loop_body_def month_update_def guarded_args_def)
qed

lemma guarded_state_early:
  "k \<le> 11 \<Longrightarrow> state_at guarded_args (initial_state guarded_args) k
     = Some \<lparr> current_balance = 1200 - 10 * real k, months = k,
        current_withdrawal_rate = 1 / 10, annual_withdrawal = 120,
        consecutive_growth_months = k \<rparr>"
proof (induction k)
  case 0
  show ?case by (simp add: initial_state_def guarded_args_def)
next
  case (Suc k)
  then have k: "k < 11" by simp
  have "state_at guarded_args (initial_state guarded_args) k
     = Some \<lparr> current_balance = 1200 - 10 * real k, months = k,
        current_withdrawal_rate = 1 / 10, annual_withdrawal = 120,
        consecutive_growth_months = k \<rparr>"
    using Suc by simp
  moreover have "0 < current_balance \<lparr> current_balance = 1200 - 10 * real k, months = k,
        current_withdrawal_rate = 1 / 10, annual_withdrawal = 120,
        consecutive_growth_months = k \<rparr>"
    using k by simp
  moreover have "months \<lparr> current_balance = 1200 - 10 * real k, months = k,
        current_withdrawal_rate = 1 / 10, annual_withdrawal = 120,
        consecutive_growth_months = k \<rparr> < 1200"
    using k by simp
  moreover note guarded_body_early [OF k]
  ultimately show ?case by (rule state_at_SucI)
qed

lemma guarded_state_11:
  "state_at guarded_args (initial_state guarded_args) 11
     = Some \<lparr> current_balance = 1090, months = 11, current_withdrawal_rate = 1 / 10,
        annual_withdrawal = 120, consecutive_growth_months = 11 \<rparr>"
  using guarded_state_early [of 11] by simp

lemma guarded_body_12:
  "loop_body guarded_args \<lparr> current_balance = 1090, months = 11,
        current_withdrawal_rate = 1 / 10, annual_withdrawal = 120,
        consecutive_growth_months = 11 \<rparr>
     = Continue \<lparr> current_balance = 259529 / 240, months = 12,
        current_withdrawal_rate = 19 / 200, annual_withdrawal = 2071 / 20,
        consecutive_growth_months = 12 \<rparr>"
  by (simp add: loop_body_def month_update_def guarded_args_def)

lemma guarded_state_12:
  "state_at guarded_args (initial_state guarded_args) (Suc 11)
     = Some \<lparr> current_balance = 259529 / 240, months = 12,
        current_withdrawal_rate = 19 / 200, annual_withdrawal = 2071 / 20,
        consecutive_growth_months = 12 \<rparr>"
  using guarded_state_11 by (rule state_at_SucI) (simp_all add: guarded_body_12)

theorem guardrail_adjustment_witness:
  "state_at guarded_args (initial_state guarded_args) 11
     = Some \<lparr> current_balance = 1090, months = 11, current_withdrawal_rate = 1 / 10,
        annual_withdrawal = 120, consecutive_growth_months = 11 \<rparr>
   \<and> state_at guarded_args (initial_state guarded_args) (Suc 11)
     = Some \<lparr> current_balance = 259529 / 240, months = 12,
        current_withdrawal_rate = 19 / 200, annual_withdrawal = 2071 / 20,
        consecutive_growth_months = 12 \<rparr>
   \<and> (19 / 200 :: real) = max (25 / 1000) ((1 / 10) * (95 / 100))
   \<and> (2071 / 20 :: real) = 1090 * (19 / 200)"
proof -
  have g: "use_guardrails guarded_args" by (simp add: guarded_args_def)
  note inst = guardrail_adjustment [OF g guarded_state_11 guarded_state_12 refl refl]
  have "current_withdrawal_rate \<lparr> current_balance = 259529 / 240, months = 12,
        current_withdrawal_rate = 19 / 200, annual_withdrawal = 2071 / 20,
        consecutive_growth_months = 12 \<rparr> = max (25 / 1000) ((1 / 10) * (95 / 100))
      \<and> annual_withdrawal \<lparr> current_balance = 259529 / 240, months = 12,
        current_withdrawal_rate = 19 / 200, annual_withdrawal = 2071 / 20,
        consecutive_growth_months = 12 \<rparr> = 1090 * (19 / 200)"
    using inst by (simp add: guarded_args_def)
  then show ?thesis using guarded_state_11 guarded_state_12 by simp
qed


section \<open>Properties of the Monte Carlo engine\<close>

lemma run_trial_reseeds:
  "run_trial seed normal g sim rng = run_trial seed normal g sim rng'"
  by (simp add: run_trial_def)

lemma mc_loop_reseeds:
  "fst (mc_loop seed normal g sims rng acc) = fst (mc_loop seed normal g sims rng' acc)"
proof (cases sims)
  case Nil
  then show ?thesis by simp
next
  case (Cons sim rest)
  show ?thesis unfolding Cons mc_loop.simps run_trial_reseeds [of seed normal g sim rng rng'] ..
qed

lemma mc_loop_records:
  "fst (mc_loop seed normal g sims rng acc) = Inr rs \<Longrightarrow>
     length rs = length acc + length sims \<and> take (length acc) rs = acc
     \<and> (\<forall>j<length sims. fst (run_trial seed normal g (sims ! j) rng0) = Inr (rs ! (length acc + j)))"
proof (induction sims arbitrary: rng acc)
  case Nil
  then show ?case by simp
next
  case (Cons sim sims)
  obtain out rng' where rt: "run_trial seed normal g sim rng = (out, rng')"
    by (cases "run_trial seed normal g sim rng")
  show ?case
  proof (cases out)
    case (Inl e)
    with Cons.prems rt show ?thesis by simp
  next
    case (Inr r)
    with Cons.prems rt have "fst (mc_loop seed normal g sims rng' (acc @ [r])) = Inr rs" by simp
    note ih = Cons.IH [OF this]
    have len: "length rs = length acc + length (sim # sims)" using ih by simp
    have "take (length acc) (take (length (acc @ [r])) rs) = take (length acc) (acc @ [r])"
      using ih by simp
    then have tk: "take (length acc) rs = acc" by (simp add: min_def)
    have "rs ! length acc = (take (length (acc @ [r])) rs) ! length acc" by simp
    also have "\<dots> = r" using ih by simp
    finally have here: "rs ! length acc = r" .
    have first: "fst (run_trial seed normal g sim rng0) = Inr (rs ! length acc)"
      using rt Inr here run_trial_reseeds [of seed normal g sim rng0 rng] by simp
    have rest: "\<forall>j<length sims. fst (run_trial seed normal g (sims ! j) rng0)
        = Inr (rs ! (length acc + Suc j))"
      using ih by simp
    have "\<forall>j<length (sim # sims). fst (run_trial seed normal g ((sim # sims) ! j) rng0)
        = Inr (rs ! (length acc + j))"
    proof (intro allI impI)
      fix j assume "j < length (sim # sims)"
      then show "fst (run_trial seed normal g ((sim # sims) ! j) rng0) = Inr (rs ! (length acc + j))"
        using first rest by (cases j) simp_all
    qed
    with len tk show ?thesis by blast
  qed
qed

lemma monte_carlo_records:
  assumes "fst (run_monte_carlo_simulation seed normal g n rng) = Inr rs"
  shows "length rs = nat n"
    and "i < nat n \<Longrightarrow> fst (run_trial seed normal g i rng0) = Inr (rs ! i)"
proof -
  note r = mc_loop_records [OF assms [unfolded run_monte_carlo_simulation_def], of rng0]
  show "length rs = nat n" using r by simp
  show "fst (run_trial seed normal g i rng0) = Inr (rs ! i)" if "i < nat n"
    using r that by simp
qed

text \<open>
  Claim C5. Every trial begins by seeding the generator with its trial index, so a trial
  does not depend on the generator state it starts from. Hence two runs with the same
  parameters and trial count return the same list of records, whatever the generator
  state before each run; a run that returns has one record per trial; and the record at
  position \<open>i\<close> is the outcome of trial \<open>i\<close> on its own, the same in runs of any length
  that reach it.
\<close>

theorem monte_carlo_reseeds_per_trial:
  "run_trial seed normal g i rng = run_trial seed normal g i rng'
   \<and> fst (run_monte_carlo_simulation seed normal g n rng)
     = fst (run_monte_carlo_simulation seed normal g n rng')
   \<and> (fst (run_monte_carlo_simulation seed normal g n rng) = Inr rs \<longrightarrow>
        length rs = nat n
        \<and> (\<forall>j<nat n. fst (run_trial seed normal g j rng') = Inr (rs ! j)))
   \<and> (fst (run_monte_carlo_simulation seed normal g n rng) = Inr rs
        \<and> fst (run_monte_carlo_simulation seed normal g n' rng') = Inr rs'
        \<and> i < nat n \<and> i < nat n' \<longrightarrow> rs ! i = rs' ! i)"
proof (intro conjI impI)
  show "run_trial seed normal g i rng = run_trial seed normal g i rng'"
    by (rule run_trial_reseeds)
  show "fst (run_monte_carlo_simulation seed normal g n rng)
     = fst (run_monte_carlo_simulation seed normal g n rng')"
    unfolding run_monte_carlo_simulation_def by (rule mc_loop_reseeds)
next
  assume "fst (run_monte_carlo_simulation seed normal g n rng) = Inr rs"
  then show "length rs = nat n" by (rule monte_carlo_records(1))
next
  assume h: "fst (run_monte_carlo_simulation seed normal g n rng) = Inr rs"
  show "\<forall>j<nat n. fst (run_trial seed normal g j rng') = Inr (rs ! j)"
    using monte_carlo_records(2) [OF h] by simp
next
  assume a: "fst (run_monte_carlo_simulation seed normal g n rng) = Inr rs
        \<and> fst (run_monte_carlo_simulation seed normal g n' rng') = Inr rs'
        \<and> i < nat n \<and> i < nat n'"
  have "fst (run_trial seed normal g i rng) = Inr (rs ! i)"
    using a by (intro monte_carlo_records(2) [of seed normal g n rng]) simp_all
  moreover have "fst (run_trial seed normal g i rng) = Inr (rs' ! i)"
    using a by (intro monte_carlo_records(2) [of seed normal g n' rng']) simp_all
  ultimately show "rs ! i = rs' ! i" by simp
qed


lemma calculate_np_eq:
  "balance a \<noteq> 0 \<Longrightarrow>
     calculate_withdrawal_years_enhanced_np a = calculate_withdrawal_years_enhanced a"
  by (simp add: calculate_withdrawal_years_enhanced_np_def calculate_withdrawal_years_enhanced_def)

lemma plan_lasts:
  assumes "0 < B" "B \<le> 120000"
  shows "calculate_withdrawal_years_enhanced
      \<lparr> balance = B, monthly_withdrawal = 100, annual_rate = 0, monthly_ss = 0,
        ss_start_age = Some 67, retirement_age = Some 62, use_guardrails = False,
        lower_bound = 4 / 100, upper_bound = 4 / 100 \<rparr>
     = Inr (Finite (real_of_int \<lceil>B / 100\<rceil> / 12))"
proof -
  let ?a = "\<lparr> balance = B, monthly_withdrawal = 100, annual_rate = 0, monthly_ss = 0,
        ss_start_age = Some 67, retirement_age = Some 62, use_guardrails = False,
        lower_bound = 4 / 100, upper_bound = 4 / 100 \<rparr>"
  have "while_loop ?a (initial_state ?a)
      = Inr (Finite (real_of_int \<lceil>balance ?a / (balance ?a * (1200 / B) / 12)\<rceil> / 12))"
    using assms by (intro straight_line [where ra = 62]) (simp_all add: field_simps)
  moreover have "balance ?a / (balance ?a * (1200 / B) / 12) = B / 100"
    using assms by (simp add: field_simps)
  ultimately show ?thesis
    using assms by (simp add: calculate_withdrawal_years_enhanced_def)
qed

lemma toy_trial_0:
  "run_trial toy_seed toy_normal one_year_plan 0 rng
     = (Inr \<lparr> balance_at_retirement = 2200, years_lasted = Finite (11 / 6),
              monthly_withdrawal_amount = 100 \<rparr>, 1)"
proof -
  have "calculate_withdrawal_years_enhanced
      \<lparr> balance = 2200, monthly_withdrawal = 100, annual_rate = 0, monthly_ss = 0,
        ss_start_age = Some 67, retirement_age = Some 62, use_guardrails = False,
        lower_bound = 4 / 100, upper_bound = 4 / 100 \<rparr> = Inr (Finite (11 / 6))"
    by (subst plan_lasts) simp_all
  then have "calculate_withdrawal_years_enhanced_np
      \<lparr> balance = 2200, monthly_withdrawal = 100, annual_rate = 0, monthly_ss = 0,
        ss_start_age = Some 67, retirement_age = Some 62, use_guardrails = False,
        lower_bound = 4 / 100, upper_bound = 4 / 100 \<rparr> = Inr (Finite (11 / 6))"
    by (subst calculate_np_eq) simp_all
  then show ?thesis
    by (simp add: run_trial_def one_year_plan_def toy_seed_def toy_normal_def mc_year_def)
qed

lemma toy_trial_1:
  "run_trial toy_seed toy_normal one_year_plan (Suc 0) rng
     = (Inr \<lparr> balance_at_retirement = 2370, years_lasted = Finite 2,
              monthly_withdrawal_amount = 100 \<rparr>, 2)"
proof -
  have "calculate_withdrawal_years_enhanced
      \<lparr> balance = 2370, monthly_withdrawal = 100, annual_rate = 0, monthly_ss = 0,
        ss_start_age = Some 67, retirement_age = Some 62, use_guardrails = False,
        lower_bound = 4 / 100, upper_bound = 4 / 100 \<rparr> = Inr (Finite 2)"
    by (subst plan_lasts) simp_all
  then have "calculate_withdrawal_years_enhanced_np
      \<lparr> balance = 2370, monthly_withdrawal = 100, annual_rate = 0, monthly_ss = 0,
        ss_start_age = Some 67, retirement_age = Some 62, use_guardrails = False,
        lower_bound = 4 / 100, upper_bound = 4 / 100 \<rparr> = Inr (Finite 2)"
    by (subst calculate_np_eq) simp_all
  then show ?thesis
    by (simp add: run_trial_def one_year_plan_def toy_seed_def toy_normal_def mc_year_def)
qed

lemma toy_run:
  "run_monte_carlo_simulation toy_seed toy_normal one_year_plan 2 rng
     = (Inr [\<lparr> balance_at_retirement = 2200, years_lasted = Finite (11 / 6),
               monthly_withdrawal_amount = 100 \<rparr>,
             \<lparr> balance_at_retirement = 2370, years_lasted = Finite 2,
               monthly_withdrawal_amount = 100 \<rparr>], 2)"
proof -
  have "[0..<nat 2] = [0, 1]" by (simp add: upt_rec)
  then show ?thesis
    by (simp add: run_monte_carlo_simulation_def toy_trial_0 toy_trial_1)
qed

theorem monte_carlo_reseeds_per_trial_witness:
  "fst (run_monte_carlo_simulation toy_seed toy_normal one_year_plan 2 7)
     = Inr [\<lparr> balance_at_retirement = 2200, years_lasted = Finite (11 / 6),
               monthly_withdrawal_amount = 100 \<rparr>,
             \<lparr> balance_at_retirement = 2370, years_lasted = Finite 2,
               monthly_withdrawal_amount = 100 \<rparr>]
   \<and> fst (run_monte_carlo_simulation toy_seed toy_normal one_year_plan 2 7)
     = fst (run_monte_carlo_simulation toy_seed toy_normal one_year_plan 2 99)
   \<and> fst (run_trial toy_seed toy_normal one_year_plan 1 99)
     = Inr \<lparr> balance_at_retirement = 2370, years_lasted = Finite 2,
             monthly_withdrawal_amount = 100 \<rparr>"
proof -
  let ?rs = "[\<lparr> balance_at_retirement = 2200, years_lasted = Finite (11 / 6),
               monthly_withdrawal_amount = 100 \<rparr>,
             \<lparr> balance_at_retirement = 2370, years_lasted = Finite 2,
               monthly_withdrawal_amount = 100 \<rparr>]"
  have run: "fst (run_monte_carlo_simulation toy_seed toy_normal one_year_plan 2 7) = Inr ?rs"
    by (simp add: toy_run)
  note inst = monte_carlo_reseeds_per_trial
    [of toy_seed toy_normal one_year_plan 1 7 99 2 ?rs 2 ?rs]
  have same: "fst (run_monte_carlo_simulation toy_seed toy_normal one_year_plan 2 7)
     = fst (run_monte_carlo_simulation toy_seed toy_normal one_year_plan 2 99)"
    using inst by blast
  have "\<forall>j<nat 2. fst (run_trial toy_seed toy_normal one_year_plan j 99) = Inr (?rs ! j)"
    using inst run by blast
  then have "fst (run_trial toy_seed toy_normal one_year_plan 1 99) = Inr (?rs ! 1)"
    by simp
  then show ?thesis using run same by simp
qed


subsection \<open>Comparison with the earlier engine\<close>

text \<open>
  The earlier engine is reproducible as well, since it seeds with a constant before its
  loop; but it does not re-seed per trial, and a trial's outcome there depends on the
  generator state the trials before it have left.
\<close>

lemma v1_seeded_once:
  "run_monte_carlo_simulation_v1 seed normal p n rng
     = run_monte_carlo_simulation_v1 seed normal p n rng'"
  by (simp add: run_monte_carlo_simulation_v1_def)

declare while_loop_v1.simps [simp del]

lemma while_loop_v1_returns:
  "\<exists>m. while_loop_v1 monthly_wd monthly_rate ss ssa (Some r) bal n = Inr (real m / 12)"
proof (induction monthly_wd monthly_rate ss ssa "Some r" bal n rule: while_loop_v1.induct)
  case (1 monthly_wd monthly_rate ss ssa bal n)
  show ?case
  proof (cases "0 < bal")
    case False
    then have "while_loop_v1 monthly_wd monthly_rate ss ssa (Some r) bal n = Inr (real n / 12)"
      by (subst while_loop_v1.simps) simp
    then show ?thesis by blast
  next
    case True
    show ?thesis
    proof (cases "1200 < n + 1")
      case over: True
      have "while_loop_v1 monthly_wd monthly_rate ss ssa (Some r) bal n
          = Inr (real (n + 1) / 12)"
        using True over by (subst while_loop_v1.simps) (simp add: Let_def)
      then show ?thesis by blast
    next
      case under: False
      let ?bal = "bal * (1 + monthly_rate) - max 0 (monthly_wd -
          (case ssa of None \<Rightarrow> 0
           | Some a \<Rightarrow> if a \<noteq> 0 \<and> r + real (n + 1) / 12 \<ge> a then ss else 0))"
      have "while_loop_v1 monthly_wd monthly_rate ss ssa (Some r) bal n
          = while_loop_v1 monthly_wd monthly_rate ss ssa (Some r) ?bal (n + 1)"
        using True under
        by (subst while_loop_v1.simps) (simp only: Let_def option.case if_True if_False)
      moreover have "\<exists>m. while_loop_v1 monthly_wd monthly_rate ss ssa (Some r) ?bal (n + 1)
          = Inr (real m / 12)"
        using True under by (intro 1 refl) simp_all
      ultimately show ?thesis by (simp only:)
    qed
  qed
qed

lemma v1_trial_depends_on_generator_state:
  "fst (trial_v1 toy_normal one_year_params_v1 0) \<noteq> fst (trial_v1 toy_normal one_year_params_v1 1)"
proof -
  obtain y0 where y0: "calculate_withdrawal_years_v1 2200 (2200 * (4 / 100) / 12) 0 0
      (Some 67) (Some 62) = Inr y0"
    unfolding calculate_withdrawal_years_v1_def using while_loop_v1_returns by metis
  obtain y1 where y1: "calculate_withdrawal_years_v1 2360 (2360 * (4 / 100) / 12) 0 0
      (Some 67) (Some 62) = Inr y1"
    unfolding calculate_withdrawal_years_v1_def using while_loop_v1_returns by metis
  have "fst (trial_v1 toy_normal one_year_params_v1 0)
      = Inr \<lparr> balance_at_retirement_v1 = 2200, years_lasted_v1 = y0,
              funds_exhausted_age_v1 = 62 + y0 \<rparr>"
    using y0 by (simp add: trial_v1_def one_year_params_v1_def toy_normal_def)
  moreover have "fst (trial_v1 toy_normal one_year_params_v1 1)
      = Inr \<lparr> balance_at_retirement_v1 = 2360, years_lasted_v1 = y1,
              funds_exhausted_age_v1 = 62 + y1 \<rparr>"
    using y1 by (simp add: trial_v1_def one_year_params_v1_def toy_normal_def)
  ultimately show ?thesis by simp
qed

end
